theory Spec2Isabelle
  imports Main
begin

section \<open>Strings and numbers of the runtime\<close>

text \<open>
  A string of the source is a sequence of UTF-16 code units; \<open>name.length\<close> counts them.
  \<open>js\<close> embeds an ASCII literal.
\<close>

type_synonym jsstring = "nat list"

definition js :: "string \<Rightarrow> jsstring" where
  "js s = map of_char s"

text \<open>
  The character classes the source names in its regular expressions:
  \<open>\s\<close> (also the characters \<open>trim\<close> strips), \<open>\w\<close>, the range
  \<open>\u4e00-\u9fa5\<close>, \<open>[a-zA-Z\u4e00-\u9fa5]\<close> and
  \<open>[0-9\s\+\-\*\/\(\)\.]\<close>.
\<close>

definition isWhiteSpace :: "nat \<Rightarrow> bool" where
  "isWhiteSpace c =
     (c \<in> set [9, 10, 11, 12, 13, 32, 160, 5760, 8232, 8233, 8239, 8287, 12288, 65279]
      \<or> (8192 \<le> c \<and> c \<le> 8202))"

definition isLineTerminator :: "nat \<Rightarrow> bool" where
  "isLineTerminator c = (c \<in> set [10, 13, 8232, 8233])"

definition isDigit :: "nat \<Rightarrow> bool" where
  "isDigit c = (48 \<le> c \<and> c \<le> 57)"

definition isLatin :: "nat \<Rightarrow> bool" where
  "isLatin c = ((65 \<le> c \<and> c \<le> 90) \<or> (97 \<le> c \<and> c \<le> 122))"

definition isCJK :: "nat \<Rightarrow> bool" where
  "isCJK c = (19968 \<le> c \<and> c \<le> 40869)"

definition isWordChar :: "nat \<Rightarrow> bool" where
  "isWordChar c = (isLatin c \<or> isDigit c \<or> c = 95)"

definition isBoundary :: "nat \<Rightarrow> bool" where
  \<comment> \<open>the class \<open>[^\u4e00-\u9fa5\w]\<close>\<close>
  "isBoundary c = (\<not> isCJK c \<and> \<not> isWordChar c)"

definition isLetter :: "nat \<Rightarrow> bool" where
  \<comment> \<open>the class \<open>[a-zA-Z\u4e00-\u9fa5]\<close>\<close>
  "isLetter c = (isLatin c \<or> isCJK c)"

definition isAllowed :: "nat \<Rightarrow> bool" where
  \<comment> \<open>the class \<open>[0-9\s\+\-\*\/\(\)\.]\<close>\<close>
  "isAllowed c = (isDigit c \<or> isWhiteSpace c \<or> c \<in> set [43, 45, 42, 47, 40, 41, 46])"

definition isSyntaxChar :: "nat \<Rightarrow> bool" where
  \<comment> \<open>the characters with a meaning of their own in a pattern:
      \<open>^ $ \ . * + ? ( ) [ ] { } |\<close>\<close>
  "isSyntaxChar c = (c \<in> set [94, 36, 92, 46, 42, 43, 63, 40, 41, 91, 93, 123, 125, 124])"

definition trim :: "jsstring \<Rightarrow> jsstring" where
  "trim s = rev (dropWhile isWhiteSpace (rev (dropWhile isWhiteSpace s)))"

fun startsWith :: "jsstring \<Rightarrow> jsstring \<Rightarrow> bool" where
  "startsWith s [] = True"
| "startsWith [] (c # n) = False"
| "startsWith (d # s) (c # n) = (d = c \<and> startsWith s n)"

fun includes_str :: "jsstring \<Rightarrow> jsstring \<Rightarrow> bool" where
  "includes_str [] n = (n = [])"
| "includes_str (c # s) n = (startsWith (c # s) n \<or> includes_str s n)"

text \<open>
  A number of the source is a double. The model keeps the integers of magnitude at most
  \<open>2^53\<close>, on which the arithmetic of doubles is exact, the decimals
  \<open>Dec m k\<close> (the double nearest to \<open>m / 10^k\<close>, for a decimal that is not an
  integer, has at most 15 significant digits and is at least \<open>10^-6\<close> in magnitude:
  the runtime prints such a double with exactly these digits), the two infinities and NaN.
  \<open>Unmodelled\<close> stands for a number that the model does not determine: any other double
  (negative zero, a rounded result), and the result of the evaluator on an input outside
  the modelled part of the runtime.
\<close>

datatype jsnum = Fin int | Dec int nat | PosInf | NegInf | NaN | Unmodelled

definition fin :: "int \<Rightarrow> jsnum" where
  "fin n = (if \<bar>n\<bar> \<le> 9007199254740992 then Fin n else Unmodelled)"

definition isDecimal :: "int \<Rightarrow> nat \<Rightarrow> bool" where
  "isDecimal m k =
     (0 < k \<and> m mod 10 \<noteq> 0 \<and> \<bar>m\<bar> < 1000000000000000 \<and> 10 ^ k \<le> \<bar>m\<bar> * 1000000)"

text \<open>
  What a computation of the runtime comes to: a value, an exception, or \<open>Beyond\<close> when
  the input leaves the modelled part of the runtime (a name that is a pattern rather than
  literal text, a regular-expression literal, \<open>**\<close>, a number the model does not
  determine).
\<close>

datatype js_error = SyntaxError | TypeError | RangeError

datatype 'a outcome = Ok 'a | Throw js_error | Beyond

fun bind :: "'a outcome \<Rightarrow> ('a \<Rightarrow> 'b outcome) \<Rightarrow> 'b outcome" where
  "bind (Ok x) f = f x"
| "bind (Throw e) f = Throw e"
| "bind Beyond f = Beyond"

fun digits :: "nat \<Rightarrow> jsstring" where
  "digits n = (if n < 10 then [48 + n] else digits (n div 10) @ [48 + n mod 10])"

declare digits.simps [simp del]

definition intToString :: "int \<Rightarrow> jsstring" where
  "intToString n = (if n < 0 then 45 # digits (nat (- n)) else digits (nat n))"

definition decimalText :: "int \<Rightarrow> nat \<Rightarrow> jsstring" where
  \<comment> \<open>the digits of \<open>m\<close> with the point before the last \<open>k\<close> of them\<close>
  "decimalText m k =
     (let ds = digits (nat \<bar>m\<bar>);
          padded = replicate (Suc k - length ds) 48 @ ds;
          n = length padded - k
      in (if m < 0 then [45] else []) @ take n padded @ 46 # drop n padded)"

fun numToString :: "jsnum \<Rightarrow> jsstring outcome" where
  "numToString (Fin n) = (if \<bar>n\<bar> \<le> 9007199254740992 then Ok (intToString n) else Beyond)"
| "numToString (Dec m k) = (if isDecimal m k then Ok (decimalText m k) else Beyond)"
| "numToString PosInf = Ok (js ''Infinity'')"
| "numToString NegInf = Ok (js ''-Infinity'')"
| "numToString NaN = Ok (js ''NaN'')"
| "numToString Unmodelled = Beyond"

fun jsNeg :: "jsnum \<Rightarrow> jsnum" where
  "jsNeg (Fin n) = (if n = 0 then Unmodelled else Fin (- n))"
| "jsNeg (Dec m k) = Dec (- m) k"
| "jsNeg PosInf = NegInf"
| "jsNeg NegInf = PosInf"
| "jsNeg NaN = NaN"
| "jsNeg Unmodelled = Unmodelled"

fun decimalValue :: "int \<Rightarrow> jsstring \<Rightarrow> int" where
  "decimalValue acc [] = acc"
| "decimalValue acc (c # cs) = decimalValue (10 * acc + (int c - 48)) cs"

definition decimalNumber :: "jsstring \<Rightarrow> jsstring \<Rightarrow> jsnum" where
  \<comment> \<open>the number that the digits \<open>ip\<close>, a point and the digits \<open>fp\<close> denote\<close>
  "decimalNumber ip fp =
     (let fd = rev (dropWhile (\<lambda>c. c = 48) (rev fp));
          m = decimalValue 0 (ip @ fd)
      in if fd = [] then fin (decimalValue 0 ip)
         else if isDecimal m (length fd) then Dec m (length fd)
         else Unmodelled)"

text \<open>
  \<open>Number(s)\<close> on a string: the grammar of string numeric literals. White space is
  stripped; the empty string is 0; a decimal literal may carry a sign, a point and an
  exponent; \<open>0x\<close>, \<open>0o\<close> and \<open>0b\<close> introduce unsigned integers; every other
  string is NaN.
\<close>

definition isExponent :: "jsstring \<Rightarrow> bool" where
  "isExponent e =
     (case e of
        [] \<Rightarrow> False
      | c # x \<Rightarrow>
          (c = 101 \<or> c = 69)
          \<and> (let y = (if startsWith x [43] \<or> startsWith x [45] then tl x else x)
             in y \<noteq> [] \<and> list_all isDigit y))"

definition strDecimal :: "jsstring \<Rightarrow> jsnum" where
  "strDecimal t =
     (let ip = takeWhile isDigit t;
          r = dropWhile isDigit t;
          fp = (if startsWith r [46] then takeWhile isDigit (tl r) else []);
          e = (if startsWith r [46] then dropWhile isDigit (tl r) else r)
      in if t = js ''Infinity'' then PosInf
         else if ip = [] \<and> fp = [] then NaN
         else if e = [] then decimalNumber ip fp
         else if isExponent e then Unmodelled
         else NaN)"

definition radixDigit :: "nat \<Rightarrow> nat option" where
  "radixDigit c =
     (if 48 \<le> c \<and> c \<le> 57 then Some (c - 48)
      else if 97 \<le> c \<and> c \<le> 102 then Some (c - 87)
      else if 65 \<le> c \<and> c \<le> 70 then Some (c - 55)
      else None)"

fun radixValue :: "nat \<Rightarrow> int \<Rightarrow> jsstring \<Rightarrow> int option" where
  "radixValue b acc [] = Some acc"
| "radixValue b acc (c # cs) =
     (case radixDigit c of
        None \<Rightarrow> None
      | Some d \<Rightarrow> if d < b then radixValue b (int b * acc + int d) cs else None)"

definition strNonDecimal :: "jsstring \<Rightarrow> jsnum option" where
  \<comment> \<open>\<open>0x1f\<close>, \<open>0o17\<close>, \<open>0b101\<close>\<close>
  "strNonDecimal t =
     (case t of
        z # p # d # ds \<Rightarrow>
          (let b = (if p = 120 \<or> p = 88 then 16 else if p = 111 \<or> p = 79 then 8
                    else if p = 98 \<or> p = 66 then 2 else 0)
           in if z = 48 \<and> b \<noteq> 0 then map_option fin (radixValue b 0 (d # ds)) else None)
      | _ \<Rightarrow> None)"

definition StringToNumber :: "jsstring \<Rightarrow> jsnum" where
  "StringToNumber s =
     (let t = trim s in
      if t = [] then Fin 0
      else if startsWith t [43] then strDecimal (tl t)
      else if startsWith t [45] then jsNeg (strDecimal (tl t))
      else case strNonDecimal t of
             Some n \<Rightarrow> n
           | None \<Rightarrow> strDecimal t)"

section \<open>The data model\<close>

datatype jsdate = Instant int | InvalidDate

text \<open>
  The values a row holds at run time: a number, a string, a date, and after a round trip
  through the store also \<open>null\<close>. \<open>JIso t\<close> is the string that \<open>toISOString\<close> yields for
  the instant \<open>t\<close> (epoch milliseconds), which \<open>new Date\<close> reads back as \<open>t\<close>;
  \<open>JUnmodelled\<close> is a number or \<open>null\<close> that the model does not determine.
\<close>

datatype jsval = JNum jsnum | JStr jsstring | JIso int | JDate jsdate | JNull | JUnmodelled

datatype rowtype = TString | TNumber | TDate | TDatetime | TPercentage | TFormula

datatype dateformat = FDate | FDatetime

record DataRow =
  row_id :: int
  row_name :: jsstring
  row_value :: jsval
  row_type :: rowtype
  row_dateFormat :: "dateformat option"
  row_output :: "jsstring option"
  row_formula :: "jsstring option"
  row_result :: "jsval option"

record StateTable =
  tbl_id :: jsstring
  tbl_x :: int
  tbl_y :: int
  tbl_data :: "DataRow list"

record StateTransition =
  tr_id :: jsstring
  tr_fromId :: jsstring
  tr_toId :: jsstring
  tr_text :: "jsstring option"

section \<open>calculateFormula: the pool of names\<close>

fun Number :: "jsval \<Rightarrow> jsnum" where
  "Number (JNum n) = n"
| "Number (JStr s) = StringToNumber s"
| "Number (JIso t) = NaN"
| "Number (JDate (Instant t)) = fin t"
| "Number (JDate InvalidDate) = NaN"
| "Number JNull = Fin 0"
| "Number JUnmodelled = Unmodelled"

fun orZero :: "jsnum \<Rightarrow> jsnum" where
  \<comment> \<open>\<open>n || 0\<close>\<close>
  "orZero NaN = Fin 0"
| "orZero n = n"

fun nanToZero :: "jsnum \<Rightarrow> jsnum" where
  \<comment> \<open>\<open>isNaN(n) ? 0 : n\<close>\<close>
  "nanToZero NaN = Fin 0"
| "nanToZero n = n"

definition rowNumber :: "DataRow \<Rightarrow> jsnum" where
  "rowNumber row =
     (case row_type row of
        TPercentage \<Rightarrow> Number (row_value row)
      | TNumber \<Rightarrow> Number (row_value row)
      | TFormula \<Rightarrow> orZero (Number (row_value row))
      | _ \<Rightarrow> nanToZero (Number (row_value row)))"

definition allData :: "DataRow list \<Rightarrow> StateTable list option \<Rightarrow> DataRow list" where
  "allData data stateTables =
     (case stateTables of
        None \<Rightarrow> data
      | Some tables \<Rightarrow> data @ concat (map tbl_data tables))"

definition sortedData :: "DataRow list \<Rightarrow> DataRow list" where
  \<comment> \<open>the stable sort by \<open>b.name.length - a.name.length\<close>\<close>
  "sortedData rows = sort_key (\<lambda>row. - int (length (row_name row))) rows"

fun nameValueMap :: "(jsstring \<times> jsnum) list \<Rightarrow> DataRow list \<Rightarrow> (jsstring \<times> jsnum) list" where
  "nameValueMap m [] = m"
| "nameValueMap m (row # rows) =
     (if row_name row = [] then nameValueMap m rows
      else if row_name row \<in> fst ` set m then nameValueMap m rows
      else nameValueMap (m @ [(row_name row, rowNumber row)]) rows)"

section \<open>calculateFormula: substitution\<close>

text \<open>
  \<open>expression.replace(regex, `$1${value}`)\<close> with the global pattern
  \<open>(^|[^\u4e00-\u9fa5\w])name(?=[^\u4e00-\u9fa5\w]|$)\<close>, for a name that is literal
  text. \<open>start\<close> tells whether the scan stands at the start of the input.
\<close>

definition lookahead :: "jsstring \<Rightarrow> bool" where
  "lookahead rest = (case rest of [] \<Rightarrow> True | c # _ \<Rightarrow> isBoundary c)"

definition matchesHere :: "jsstring \<Rightarrow> jsstring \<Rightarrow> bool" where
  "matchesHere name s = (startsWith s name \<and> lookahead (drop (length name) s))"

function replaceAll :: "jsstring \<Rightarrow> jsstring \<Rightarrow> bool \<Rightarrow> jsstring \<Rightarrow> jsstring" where
  "replaceAll name v start [] = []"
| "replaceAll name v start (c # s) =
     (if name = [] then c # s
      else if start \<and> matchesHere name (c # s)
        then v @ replaceAll name v False (drop (length name) (c # s))
      else if isBoundary c \<and> matchesHere name s
        then c # v @ replaceAll name v False (drop (length name) s)
      else c # replaceAll name v False s)"
  by pat_completeness auto
termination
  by (relation "measure (\<lambda>(name, v, start, s). length s)") auto

definition isLiteralName :: "jsstring \<Rightarrow> bool" where
  "isLiteralName name = (\<not> list_ex isSyntaxChar name)"

text \<open>
  \<open>new RegExp\<close> throws a SyntaxError when the pattern does not compile. The model
  determines this for a name without \<open>\\<close> and \<open>[\<close> whose parentheses do not
  balance: there every parenthesis of the name opens or closes a group, and the text
  around the name is balanced on its own.
\<close>

fun groupDepth :: "nat \<Rightarrow> jsstring \<Rightarrow> nat option" where
  \<comment> \<open>the groups left open; \<open>None\<close> when a \<open>)\<close> closes no group\<close>
  "groupDepth d [] = Some d"
| "groupDepth d (c # s) =
     (if c = 40 then groupDepth (Suc d) s
      else if c = 41 then (case d of 0 \<Rightarrow> None | Suc e \<Rightarrow> groupDepth e s)
      else groupDepth d s)"

definition patternFails :: "jsstring \<Rightarrow> bool" where
  "patternFails name = (92 \<notin> set name \<and> 91 \<notin> set name \<and> groupDepth 0 name \<noteq> Some 0)"

definition replaceName :: "jsstring \<Rightarrow> jsnum \<Rightarrow> jsstring \<Rightarrow> jsstring outcome" where
  \<comment> \<open>\<open>expression.replace(regex, `$1${value}`)\<close> for a pattern that compiled\<close>
  "replaceName name v expression =
     (if name = [] \<or> \<not> isLiteralName name then Beyond
      else bind (numToString v) (\<lambda>text. Ok (replaceAll name text True expression)))"

text \<open>
  The loop over the names found, on the expression so far (\<open>Beyond\<close> once the model no
  longer determines its text): the pattern of every name is compiled, whatever the
  expression has become.
\<close>

fun substitute :: "(jsstring \<times> jsnum) list \<Rightarrow> jsstring outcome \<Rightarrow> jsstring outcome" where
  "substitute [] expression = expression"
| "substitute ((name, v) # rest) expression =
     (if patternFails name then Throw SyntaxError
      else substitute rest (bind expression (replaceName name v)))"

section \<open>Evaluation of the expression\<close>

datatype token = TNum jsnum | TPlus | TMinus | TStar | TSlash | TLParen | TRParen | TInc | TDec | TPow

type_synonym ltoken = "bool \<times> token"

fun skipBlockComment :: "bool \<Rightarrow> jsstring \<Rightarrow> (bool \<times> jsstring) option" where
  "skipBlockComment lt [] = None"
| "skipBlockComment lt [c] = None"
| "skipBlockComment lt (c # d # s) =
     (if c = 42 \<and> d = 47 then Some (lt, s)
      else skipBlockComment (lt \<or> isLineTerminator c) (d # s))"

fun octalValue :: "int \<Rightarrow> jsstring \<Rightarrow> int" where
  "octalValue acc [] = acc"
| "octalValue acc (c # cs) = octalValue (8 * acc + (int c - 48)) cs"

definition lexNumber :: "jsstring \<Rightarrow> jsnum \<times> jsstring" where
  "lexNumber s =
     (let ip = takeWhile isDigit s; r = dropWhile isDigit s in
      if 1 < length ip \<and> hd ip = 48 \<and> list_all (\<lambda>c. c \<le> 55) ip
        then (fin (octalValue 0 ip), r)
      else if startsWith r [46]
        then (decimalNumber ip (takeWhile isDigit (tl r)), dropWhile isDigit (tl r))
      else (fin (decimalValue 0 ip), r))"

definition divisionAllowed :: "token option \<Rightarrow> bool" where
  "divisionAllowed prev = (case prev of Some (TNum v) \<Rightarrow> True | Some TRParen \<Rightarrow> True | _ \<Rightarrow> False)"

fun consToken :: "ltoken \<Rightarrow> ltoken list outcome \<Rightarrow> ltoken list outcome" where
  "consToken t (Ok ts) = Ok (t # ts)"
| "consToken t (Throw e) = Throw e"
| "consToken t Beyond = Beyond"

function lex :: "token option \<Rightarrow> bool \<Rightarrow> jsstring \<Rightarrow> ltoken list outcome" where
  "lex prev lt [] = Ok []"
| "lex prev lt (c # s) =
     (if isLineTerminator c then lex prev True s
      else if isWhiteSpace c then lex prev lt s
      else if isDigit c \<or> (c = 46 \<and> s \<noteq> [] \<and> isDigit (hd s)) then
        (case lexNumber (c # s) of (v, r) \<Rightarrow>
           consToken (lt, TNum v) (lex (Some (TNum v)) False r))
      else if c = 46 then (if startsWith s [46, 46] then Beyond else Throw SyntaxError)
      else if c = 47 \<and> startsWith s [47] then lex prev lt (dropWhile (\<lambda>d. \<not> isLineTerminator d) s)
      else if c = 47 \<and> startsWith s [42] then
        (case skipBlockComment False (tl s) of
           None \<Rightarrow> Throw SyntaxError
         | Some (l, r) \<Rightarrow> lex prev (lt \<or> l) r)
      else if c = 47 then
        (if divisionAllowed prev then consToken (lt, TSlash) (lex (Some TSlash) False s)
         else Beyond)
      else if c = 43 \<and> startsWith s [43] then consToken (lt, TInc) (lex (Some TInc) False (tl s))
      else if c = 43 then consToken (lt, TPlus) (lex (Some TPlus) False s)
      else if c = 45 \<and> startsWith s [45] then consToken (lt, TDec) (lex (Some TDec) False (tl s))
      else if c = 45 then consToken (lt, TMinus) (lex (Some TMinus) False s)
      else if c = 42 \<and> startsWith s [42] then consToken (lt, TPow) (lex (Some TPow) False (tl s))
      else if c = 42 then consToken (lt, TStar) (lex (Some TStar) False s)
      else if c = 40 then consToken (lt, TLParen) (lex (Some TLParen) False s)
      else if c = 41 then consToken (lt, TRParen) (lex (Some TRParen) False s)
      else Beyond)"
  by pat_completeness auto
termination
proof -
  have block: "length r < length s" if "skipBlockComment lt s = Some (l, r)" for lt s l r
    using that by (induction lt s rule: skipBlockComment.induct) (auto split: if_splits)
  have dropTl: "length (dropWhile P (tl xs)) \<le> length xs" for P and xs :: jsstring
    by (metis diff_le_self le_trans length_dropWhile_le length_tl)
  have number: "length r < Suc (length s)"
    if "(v, r) = lexNumber (c # s)" and "isDigit c \<or> c = 46" for v r c s
  proof -
    have a: "length (dropWhile isDigit s) < Suc (length s)"
      by (simp add: le_imp_less_Suc length_dropWhile_le)
    have b: "length (dropWhile isDigit (tl (dropWhile isDigit s))) < Suc (length s)"
      by (meson le_imp_less_Suc le_trans length_dropWhile_le dropTl)
    have c: "\<not> isDigit 46" by (simp add: isDigit_def)
    show ?thesis
      using that(2) that(1) [symmetric] a b c
      by (auto simp: lexNumber_def Let_def split: if_splits)
  qed
  show ?thesis
    by (relation "measure (\<lambda>(prev, lt, s). length s)")
       (auto dest: block intro: number simp: le_imp_less_Suc length_dropWhile_le)
qed

datatype expr =
    Num jsnum | Pos expr | Neg expr
  | Add expr expr | Sub expr expr | Mul expr expr | Div expr expr
  | Call expr "expr option"

fun isCall :: "expr \<Rightarrow> bool" where
  "isCall (Call f a) = True"
| "isCall e = False"

definition peek :: "ltoken list \<Rightarrow> token option" where
  "peek ts = (case ts of [] \<Rightarrow> None | t # r \<Rightarrow> Some (snd t))"

definition sameLine :: "ltoken list \<Rightarrow> bool" where
  "sameLine ts = (case ts of [] \<Rightarrow> False | t # r \<Rightarrow> \<not> fst t)"

definition updateError :: "expr \<Rightarrow> (expr \<times> ltoken list) outcome" where
  "updateError e = (if isCall e then Beyond else Throw SyntaxError)"

definition expectClose :: "expr \<times> ltoken list \<Rightarrow> (expr \<times> ltoken list) outcome" where
  "expectClose p = (if peek (snd p) = Some TRParen then Ok (fst p, tl (snd p)) else Throw SyntaxError)"

datatype production =
    Primary | CallRest expr | Unary | MulRest expr | AddRest expr | Additive

fun parse :: "nat \<Rightarrow> production \<Rightarrow> ltoken list \<Rightarrow> (expr \<times> ltoken list) outcome" where
  "parse fuel Primary ts =
     (if fuel = 0 then Beyond
      else case peek ts of
             Some (TNum v) \<Rightarrow> Ok (Num v, tl ts)
           | Some TLParen \<Rightarrow> bind (parse (fuel - 1) Additive (tl ts)) expectClose
           | _ \<Rightarrow> Throw SyntaxError)"
| "parse fuel (CallRest e) ts =
     (if fuel = 0 then Beyond
      else if peek ts = Some TLParen then
        (if peek (tl ts) = Some TRParen then parse (fuel - 1) (CallRest (Call e None)) (tl (tl ts))
         else bind (bind (parse (fuel - 1) Additive (tl ts)) expectClose)
                (\<lambda>p. parse (fuel - 1) (CallRest (Call e (Some (fst p)))) (snd p)))
      else if sameLine ts \<and> (peek ts = Some TInc \<or> peek ts = Some TDec) then updateError e
      else if peek ts = Some TPow then Beyond
      else Ok (e, ts))"
| "parse fuel Unary ts =
     (if fuel = 0 then Beyond
      else if peek ts = Some TPlus then
        bind (parse (fuel - 1) Unary (tl ts)) (\<lambda>p. Ok (Pos (fst p), snd p))
      else if peek ts = Some TMinus then
        bind (parse (fuel - 1) Unary (tl ts)) (\<lambda>p. Ok (Neg (fst p), snd p))
      else if peek ts = Some TInc \<or> peek ts = Some TDec then
        bind (parse (fuel - 1) Unary (tl ts)) (\<lambda>p. updateError (fst p))
      else bind (parse (fuel - 1) Primary ts) (\<lambda>p. parse (fuel - 1) (CallRest (fst p)) (snd p)))"
| "parse fuel (MulRest e) ts =
     (if fuel = 0 then Beyond
      else if peek ts = Some TStar then
        bind (parse (fuel - 1) Unary (tl ts)) (\<lambda>p. parse (fuel - 1) (MulRest (Mul e (fst p))) (snd p))
      else if peek ts = Some TSlash then
        bind (parse (fuel - 1) Unary (tl ts)) (\<lambda>p. parse (fuel - 1) (MulRest (Div e (fst p))) (snd p))
      else Ok (e, ts))"
| "parse fuel (AddRest e) ts =
     (if fuel = 0 then Beyond
      else if peek ts = Some TPlus then
        bind (bind (parse (fuel - 1) Unary (tl ts)) (\<lambda>p. parse (fuel - 1) (MulRest (fst p)) (snd p)))
          (\<lambda>p. parse (fuel - 1) (AddRest (Add e (fst p))) (snd p))
      else if peek ts = Some TMinus then
        bind (bind (parse (fuel - 1) Unary (tl ts)) (\<lambda>p. parse (fuel - 1) (MulRest (fst p)) (snd p)))
          (\<lambda>p. parse (fuel - 1) (AddRest (Sub e (fst p))) (snd p))
      else Ok (e, ts))"
| "parse fuel Additive ts =
     (if fuel = 0 then Beyond
      else bind (bind (parse (fuel - 1) Unary ts) (\<lambda>p. parse (fuel - 1) (MulRest (fst p)) (snd p)))
             (\<lambda>p. parse (fuel - 1) (AddRest (fst p)) (snd p)))"


fun jsAdd :: "jsnum \<Rightarrow> jsnum \<Rightarrow> jsnum" where
  "jsAdd NaN y = NaN"
| "jsAdd x NaN = NaN"
| "jsAdd Unmodelled y = Unmodelled"
| "jsAdd x Unmodelled = Unmodelled"
| "jsAdd (Dec m k) y = Unmodelled"
| "jsAdd x (Dec m k) = Unmodelled"
| "jsAdd (Fin a) (Fin b) = fin (a + b)"
| "jsAdd PosInf NegInf = NaN"
| "jsAdd NegInf PosInf = NaN"
| "jsAdd PosInf y = PosInf"
| "jsAdd NegInf y = NegInf"
| "jsAdd (Fin a) y = y"

fun jsSub :: "jsnum \<Rightarrow> jsnum \<Rightarrow> jsnum" where
  "jsSub NaN y = NaN"
| "jsSub x NaN = NaN"
| "jsSub Unmodelled y = Unmodelled"
| "jsSub x Unmodelled = Unmodelled"
| "jsSub (Dec m k) y = Unmodelled"
| "jsSub x (Dec m k) = Unmodelled"
| "jsSub (Fin a) (Fin b) = fin (a - b)"
| "jsSub PosInf PosInf = NaN"
| "jsSub NegInf NegInf = NaN"
| "jsSub PosInf y = PosInf"
| "jsSub NegInf y = NegInf"
| "jsSub (Fin a) PosInf = NegInf"
| "jsSub (Fin a) NegInf = PosInf"

fun jsMul :: "jsnum \<Rightarrow> jsnum \<Rightarrow> jsnum" where
  "jsMul NaN y = NaN"
| "jsMul x NaN = NaN"
| "jsMul Unmodelled y = Unmodelled"
| "jsMul x Unmodelled = Unmodelled"
| "jsMul (Dec m k) y = Unmodelled"
| "jsMul x (Dec m k) = Unmodelled"
| "jsMul (Fin a) (Fin b) =
     (if a * b = 0 \<and> (a < 0 \<or> b < 0) then Unmodelled else fin (a * b))"
| "jsMul (Fin a) PosInf = (if a = 0 then NaN else if 0 < a then PosInf else NegInf)"
| "jsMul (Fin a) NegInf = (if a = 0 then NaN else if 0 < a then NegInf else PosInf)"
| "jsMul PosInf (Fin b) = (if b = 0 then NaN else if 0 < b then PosInf else NegInf)"
| "jsMul NegInf (Fin b) = (if b = 0 then NaN else if 0 < b then NegInf else PosInf)"
| "jsMul PosInf PosInf = PosInf"
| "jsMul PosInf NegInf = NegInf"
| "jsMul NegInf PosInf = NegInf"
| "jsMul NegInf NegInf = PosInf"

fun jsDiv :: "jsnum \<Rightarrow> jsnum \<Rightarrow> jsnum" where
  "jsDiv NaN y = NaN"
| "jsDiv x NaN = NaN"
| "jsDiv Unmodelled y = Unmodelled"
| "jsDiv x Unmodelled = Unmodelled"
| "jsDiv (Dec m k) y = Unmodelled"
| "jsDiv x (Dec m k) = Unmodelled"
| "jsDiv (Fin a) (Fin b) =
     (if b = 0 then (if a = 0 then NaN else if 0 < a then PosInf else NegInf)
      else if a = 0 then (if 0 < b then Fin 0 else Unmodelled)
      else if b dvd a then fin (a div b)
      else Unmodelled)"
| "jsDiv (Fin a) PosInf = (if 0 \<le> a then Fin 0 else Unmodelled)"
| "jsDiv (Fin a) NegInf = (if a < 0 then Fin 0 else Unmodelled)"
| "jsDiv PosInf (Fin b) = (if 0 \<le> b then PosInf else NegInf)"
| "jsDiv NegInf (Fin b) = (if 0 \<le> b then NegInf else PosInf)"
| "jsDiv x y = NaN"

fun eval :: "expr \<Rightarrow> jsnum outcome" where
  "eval (Num v) = Ok v"
| "eval (Pos e) = eval e"
| "eval (Neg e) = bind (eval e) (\<lambda>v. Ok (jsNeg v))"
| "eval (Add a b) = bind (eval a) (\<lambda>x. bind (eval b) (\<lambda>y. Ok (jsAdd x y)))"
| "eval (Sub a b) = bind (eval a) (\<lambda>x. bind (eval b) (\<lambda>y. Ok (jsSub x y)))"
| "eval (Mul a b) = bind (eval a) (\<lambda>x. bind (eval b) (\<lambda>y. Ok (jsMul x y)))"
| "eval (Div a b) = bind (eval a) (\<lambda>x. bind (eval b) (\<lambda>y. Ok (jsDiv x y)))"
| "eval (Call f None) = bind (eval f) (\<lambda>x. Throw TypeError)"
| "eval (Call f (Some a)) = bind (eval f) (\<lambda>x. bind (eval a) (\<lambda>y. Throw TypeError))"

definition parseFuel :: "ltoken list \<Rightarrow> nat" where
  "parseFuel ts = 10 * length ts + 10"

fun statements :: "nat \<Rightarrow> ltoken list \<Rightarrow> unit outcome" where
  "statements fuel ts =
     (if ts = [] then Ok ()
      else if fuel = 0 then Beyond
      else if sameLine ts then Throw SyntaxError
      else bind (parse (parseFuel ts) Additive ts) (\<lambda>p. statements (fuel - 1) (snd p)))"

definition evaluate :: "jsstring \<Rightarrow> jsnum option outcome" where
  "evaluate expression =
     bind (lex None False expression) (\<lambda>ts.
       if sameLine ts then
         bind (parse (parseFuel ts) Additive ts) (\<lambda>p.
           bind (statements (length ts) (snd p)) (\<lambda>u.
             bind (eval (fst p)) (\<lambda>v. Ok (Some v))))
       else bind (statements (length ts) ts) (\<lambda>u. Ok None))"

section \<open>calculateFormula\<close>

definition unresolved :: "jsstring \<Rightarrow> DataRow list \<Rightarrow> StateTable list option \<Rightarrow> (jsstring \<times> jsnum) list" where
  \<comment> \<open>the names of the pool that \<open>expression.includes\<close> finds, each with its value\<close>
  "unresolved expression data stateTables =
     filter (\<lambda>p. includes_str expression (fst p))
       (nameValueMap [] (sortedData (allData data stateTables)))"

definition validExpression :: "jsstring \<Rightarrow> bool" where
  \<comment> \<open>\<open>/^[0-9\s\+\-\*\/\(\)\.]+$/.test(expression)\<close>\<close>
  "validExpression expression = (expression \<noteq> [] \<and> list_all isAllowed expression)"

definition substituted :: "jsstring \<Rightarrow> DataRow list \<Rightarrow> StateTable list option \<Rightarrow> jsstring outcome" where
  \<comment> \<open>the expression after the names have been replaced\<close>
  "substituted formula data stateTables =
     substitute (unresolved (trim formula) data stateTables) (Ok (trim formula))"

definition tryBlock :: "jsstring \<Rightarrow> DataRow list \<Rightarrow> StateTable list option \<Rightarrow> jsnum outcome" where
  \<comment> \<open>the statements between \<open>try {\<close> and \<open>} catch\<close>\<close>
  "tryBlock formula data stateTables =
     (if unresolved (trim formula) data stateTables = [] \<and> list_ex isLetter (trim formula)
        then Ok (Fin 0)
      else bind (substituted formula data stateTables) (\<lambda>expression.
             if \<not> validExpression expression then Ok (Fin 0)
             else bind (evaluate expression) (\<lambda>result.
                    Ok (case result of None \<Rightarrow> Fin 0 | Some v \<Rightarrow> v))))"

fun tryCatch :: "'a outcome \<Rightarrow> (js_error \<Rightarrow> 'a outcome) \<Rightarrow> 'a outcome" where
  "tryCatch (Throw error) handler = handler error"
| "tryCatch r handler = r"

definition calculateFormulaCall :: "jsstring \<Rightarrow> DataRow list \<Rightarrow> StateTable list option \<Rightarrow> jsnum outcome" where
  \<comment> \<open>\<open>try { ... } catch (error) { console.error(...); return 0; }\<close>\<close>
  "calculateFormulaCall formula data stateTables =
     tryCatch (tryBlock formula data stateTables) (\<lambda>error. Ok (Fin 0))"

fun returned :: "jsnum outcome \<Rightarrow> jsnum" where
  \<comment> \<open>the number that a call returns; not determined where the model does not say\<close>
  "returned (Ok v) = v"
| "returned r = Unmodelled"

definition calculateFormula :: "jsstring \<Rightarrow> DataRow list \<Rightarrow> StateTable list option \<Rightarrow> jsnum" where
  "calculateFormula formula data stateTables = returned (calculateFormulaCall formula data stateTables)"

section \<open>recalculateFormulas\<close>

definition recalculateFormulas :: "DataRow list \<Rightarrow> StateTable list \<Rightarrow> DataRow list" where
  "recalculateFormulas data stateTables =
     map (\<lambda>row.
            case row_formula row of
              None \<Rightarrow> row
            | Some formula \<Rightarrow>
                if row_type row = TFormula \<and> formula \<noteq> []
                  then row\<lparr>row_result := Some (JNum (calculateFormula formula data (Some stateTables)))\<rparr>
                else row)
         data"

section \<open>The store\<close>

text \<open>
  The store holds nothing, or the document that \<open>saveState\<close> wrote under its key. The
  document is kept as the value that \<open>JSON.parse\<close> reads back from the text that
  \<open>JSON.stringify\<close> wrote: a date has become its ISO string, a number that is not finite
  has become \<open>null\<close>, a field that was \<open>undefined\<close> is absent.
\<close>

datatype storage = Empty | Document "StateTable list" "StateTransition list"

fun jsonValue :: "jsval \<Rightarrow> jsval" where
  "jsonValue (JNum (Fin n)) = JNum (Fin n)"
| "jsonValue (JNum (Dec m k)) = JNum (Dec m k)"
| "jsonValue (JNum Unmodelled) = JUnmodelled"
| "jsonValue (JNum n) = JNull"
| "jsonValue (JDate (Instant t)) = JIso t"
| "jsonValue (JDate InvalidDate) = JNull"
| "jsonValue v = v"

definition jsonRow :: "DataRow \<Rightarrow> DataRow" where
  "jsonRow row =
     row\<lparr>row_value := jsonValue (row_value row),
         row_result := map_option jsonValue (row_result row)\<rparr>"

definition jsonTable :: "StateTable \<Rightarrow> StateTable" where
  "jsonTable table = table\<lparr>tbl_data := map jsonRow (tbl_data table)\<rparr>"

fun mapOutcome :: "('a \<Rightarrow> 'b outcome) \<Rightarrow> 'a list \<Rightarrow> 'b list outcome" where
  "mapOutcome f [] = Ok []"
| "mapOutcome f (x # xs) = bind (f x) (\<lambda>y. bind (mapOutcome f xs) (\<lambda>ys. Ok (y # ys)))"

definition orEmpty :: "jsstring option \<Rightarrow> jsstring" where
  \<comment> \<open>\<open>s || ''\<close>\<close>
  "orEmpty s = (case s of None \<Rightarrow> [] | Some t \<Rightarrow> t)"

definition saveRow :: "DataRow list \<Rightarrow> StateTable list \<Rightarrow> DataRow \<Rightarrow> DataRow outcome" where
  "saveRow data stateTables row =
     (case (row_type row, row_value row) of
        (TDate, JDate (Instant t)) \<Rightarrow> Ok (row\<lparr>row_value := JIso t\<rparr>)
      | (TDate, JDate InvalidDate) \<Rightarrow> Throw RangeError
      | _ \<Rightarrow>
          if orEmpty (row_formula row) \<noteq> []
            then Ok (row\<lparr>row_result :=
                         Some (JNum (calculateFormula (orEmpty (row_formula row)) data (Some stateTables)))\<rparr>)
          else Ok (row\<lparr>row_output := Some (orEmpty (row_output row)),
                       row_formula := Some (orEmpty (row_formula row))\<rparr>))"

definition saveTable :: "StateTable list \<Rightarrow> StateTable \<Rightarrow> StateTable outcome" where
  "saveTable stateTables table =
     bind (mapOutcome (saveRow (tbl_data table) stateTables) (tbl_data table))
       (\<lambda>rows. Ok (table\<lparr>tbl_data := rows\<rparr>))"

definition saveState :: "StateTable list \<Rightarrow> StateTransition list \<Rightarrow> storage \<Rightarrow> storage" where
  "saveState stateTables stateTransitions store =
     (case mapOutcome (saveTable stateTables) stateTables of
        Ok processedTables \<Rightarrow> Document (map jsonTable processedTables) stateTransitions
      | Throw e \<Rightarrow> store
      | Beyond \<Rightarrow> store)"





section \<open>The state machine\<close>

datatype machine_state = Idle | DialogOpen

record Context =
  stateTables :: "StateTable list"
  stateTransitions :: "StateTransition list"
  selectedTableId :: "jsstring option"
  isDialogOpen :: bool

datatype event =
    OPEN_DIALOG "jsstring option"
  | CLOSE_DIALOG
  | SAVE_STATE "DataRow list"
  | MOVE_TABLE jsstring int int
  | DELETE_TABLE jsstring
  | UPDATE_TRANSITION jsstring jsstring

text \<open>
  \<open>Date.now()\<close> is read up to three times while \<open>SAVE_STATE\<close> is handled: for the id
  of the new table, for the id of the new transition and for its \<open>toId\<close>.
\<close>

record clock =
  now_table :: int
  now_transition :: int
  now_target :: int

record world =
  machine :: machine_state
  ctx :: Context
  store :: storage

definition initialContext :: Context where
  "initialContext =
     \<lparr>stateTables = [], stateTransitions = [], selectedTableId = None, isDialogOpen = False\<rparr>"

definition tableId :: "int \<Rightarrow> jsstring" where
  "tableId t = js ''table-'' @ intToString t"

definition transitionId :: "int \<Rightarrow> jsstring" where
  "transitionId t = js ''transition-'' @ intToString t"

definition selected :: "Context \<Rightarrow> bool" where
  \<comment> \<open>\<open>if (context.selectedTableId)\<close>\<close>
  "selected c = (case selectedTableId c of None \<Rightarrow> False | Some i \<Rightarrow> i \<noteq> [])"

definition moveTable :: "jsstring \<Rightarrow> int \<Rightarrow> int \<Rightarrow> world \<Rightarrow> world" where
  "moveTable i x y w =
     (let c = ctx w;
          newTables = map (\<lambda>table. if tbl_id table = i then table\<lparr>tbl_x := x, tbl_y := y\<rparr> else table)
                        (stateTables c)
      in w\<lparr>ctx := c\<lparr>stateTables := newTables\<rparr>,
           store := saveState newTables (stateTransitions c) (store w)\<rparr>)"

definition deleteTable :: "jsstring \<Rightarrow> world \<Rightarrow> world" where
  "deleteTable i w =
     (let c = ctx w;
          newTables = filter (\<lambda>table. tbl_id table \<noteq> i) (stateTables c);
          newTransitions = filter (\<lambda>trans. tr_fromId trans \<noteq> i \<and> tr_toId trans \<noteq> i)
                             (stateTransitions c)
      in w\<lparr>ctx := c\<lparr>stateTables := newTables, stateTransitions := newTransitions\<rparr>,
           store := saveState newTables newTransitions (store w)\<rparr>)"

definition updateTransition :: "jsstring \<Rightarrow> jsstring \<Rightarrow> world \<Rightarrow> world" where
  "updateTransition i txt w =
     (let c = ctx w
      in w\<lparr>ctx := c\<lparr>stateTransitions :=
             map (\<lambda>transition. if tr_id transition = i then transition\<lparr>tr_text := Some txt\<rparr> else transition)
               (stateTransitions c)\<rparr>\<rparr>)"

definition saveTables :: "clock \<Rightarrow> DataRow list \<Rightarrow> Context \<Rightarrow> storage \<Rightarrow> StateTable list \<times> storage" where
  \<comment> \<open>the assigner of \<open>stateTables\<close> under \<open>SAVE_STATE\<close>\<close>
  "saveTables k data c st =
     (let recalculatedData = recalculateFormulas data (stateTables c) in
      if selected c then
        (case find (\<lambda>t. Some (tbl_id t) = selectedTableId c) (stateTables c) of
           None \<Rightarrow> (stateTables c, st)
         | Some sourceTable \<Rightarrow>
             (let newTables = stateTables c @
                    [\<lparr>tbl_id = tableId (now_table k), tbl_x = tbl_x sourceTable + 500,
                      tbl_y = tbl_y sourceTable, tbl_data = recalculatedData\<rparr>]
              in (newTables, saveState newTables (stateTransitions c) st)))
      else
        (let newTables = stateTables c @
               [\<lparr>tbl_id = tableId (now_table k), tbl_x = 100, tbl_y = 100,
                 tbl_data = recalculatedData\<rparr>]
         in (newTables, saveState newTables (stateTransitions c) st)))"

definition saveTransitions :: "clock \<Rightarrow> Context \<Rightarrow> storage \<Rightarrow> StateTransition list \<times> storage" where
  \<comment> \<open>the assigner of \<open>stateTransitions\<close> under \<open>SAVE_STATE\<close>\<close>
  "saveTransitions k c st =
     (if selected c then
        (let newTransitions = stateTransitions c @
               [\<lparr>tr_id = transitionId (now_transition k), tr_fromId = orEmpty (selectedTableId c),
                 tr_toId = tableId (now_target k), tr_text = None\<rparr>]
         in (newTransitions, saveState (stateTables c) newTransitions st))
      else (stateTransitions c, st))"

definition saveStateEvent :: "clock \<Rightarrow> DataRow list \<Rightarrow> world \<Rightarrow> world" where
  \<comment> \<open>both assigners read the context as it was before the event\<close>
  "saveStateEvent k data w =
     (let c = ctx w;
          (newTables, st1) = saveTables k data c (store w);
          (newTransitions, st2) = saveTransitions k c st1
      in \<lparr>machine = Idle,
          ctx = c\<lparr>stateTables := newTables, stateTransitions := newTransitions\<rparr>,
          store = st2\<rparr>)"

definition step :: "clock \<Rightarrow> world \<Rightarrow> event \<Rightarrow> world" where
  "step k w e =
     (case machine w of
        Idle \<Rightarrow>
          (case e of
             OPEN_DIALOG i \<Rightarrow>
               w\<lparr>machine := DialogOpen,
                 ctx := (ctx w)\<lparr>isDialogOpen := True, selectedTableId := i\<rparr>\<rparr>
           | MOVE_TABLE i x y \<Rightarrow> moveTable i x y w
           | DELETE_TABLE i \<Rightarrow> deleteTable i w
           | CLOSE_DIALOG \<Rightarrow>
               w\<lparr>ctx := (ctx w)\<lparr>isDialogOpen := False, selectedTableId := None\<rparr>\<rparr>
           | UPDATE_TRANSITION i txt \<Rightarrow> updateTransition i txt w
           | SAVE_STATE data \<Rightarrow> w)
      | DialogOpen \<Rightarrow>
          (case e of
             SAVE_STATE data \<Rightarrow> saveStateEvent k data w
           | CLOSE_DIALOG \<Rightarrow>
               w\<lparr>machine := Idle,
                 ctx := (ctx w)\<lparr>isDialogOpen := False, selectedTableId := None\<rparr>\<rparr>
           | _ \<Rightarrow> w))"

inductive reachable :: "world \<Rightarrow> bool" where
  initial: "reachable \<lparr>machine = Idle, ctx = initialContext, store = st\<rparr>"
| step: "reachable w \<Longrightarrow> reachable (step k w e)"

section \<open>The dialog\<close>

text \<open>
  \<open>handleSave\<close> of the dialog: what it passes to \<open>onSave\<close>, which becomes the data of
  \<open>SAVE_STATE\<close>. Every row gets an output and a formula, and a row with a formula the
  result that calculateFormula computes over the rows of the dialog. The rows of type
  \<open>date\<close>, whose value is parsed from its text, are outside the model.
\<close>

definition formatRow :: "DataRow list \<Rightarrow> DataRow \<Rightarrow> DataRow outcome" where
  "formatRow data row =
     (let baseRow = row\<lparr>row_output := Some (orEmpty (row_output row)),
                        row_formula := Some (orEmpty (row_formula row))\<rparr>
      in if row_type row = TDate then Beyond
         else if orEmpty (row_formula row) \<noteq> []
           then Ok (baseRow\<lparr>row_result :=
                      Some (JNum (calculateFormula (orEmpty (row_formula row)) data None))\<rparr>)
         else Ok baseRow)"

definition handleSave :: "DataRow list \<Rightarrow> DataRow list option outcome" where
  "handleSave data =
     (if data = [] then Ok None
      else bind (mapOutcome (formatRow data) data) (\<lambda>formattedData. Ok (Some formattedData)))"

section \<open>Vocabulary of the statements\<close>

definition sameInputs :: "DataRow \<Rightarrow> DataRow \<Rightarrow> bool" where
  \<comment> \<open>two rows agree on the fields that calculateFormula reads\<close>
  "sameInputs r r' =
     (row_name r = row_name r' \<and> row_type r = row_type r' \<and> row_value r = row_value r')"

definition namedRow :: "DataRow \<Rightarrow> bool" where
  "namedRow r = (row_name r \<noteq> [])"

definition namedTable :: "StateTable \<Rightarrow> StateTable" where
  \<comment> \<open>the table without its rows of empty name\<close>
  "namedTable t = t\<lparr>tbl_data := filter namedRow (tbl_data t)\<rparr>"

definition numberRow :: "int \<Rightarrow> string \<Rightarrow> int \<Rightarrow> DataRow" where
  "numberRow i n v =
     \<lparr>row_id = i, row_name = js n, row_value = JNum (Fin v), row_type = TNumber,
      row_dateFormat = None, row_output = Some [], row_formula = Some [], row_result = None\<rparr>"

definition formulaRow :: "int \<Rightarrow> string \<Rightarrow> rowtype \<Rightarrow> string \<Rightarrow> jsval option \<Rightarrow> DataRow" where
  "formulaRow i n ty f res =
     \<lparr>row_id = i, row_name = js n, row_value = JStr [], row_type = ty,
      row_dateFormat = None, row_output = Some [], row_formula = Some (js f), row_result = res\<rparr>"

definition noClock :: clock where
  \<comment> \<open>a clock that does not advance while an event is handled\<close>
  "noClock = \<lparr>now_table = 1000, now_transition = 1000, now_target = 1000\<rparr>"

definition emptyWorld :: world where
  "emptyWorld = \<lparr>machine = Idle, ctx = initialContext, store = Empty\<rparr>"

definition dialogWorld :: world where
  \<comment> \<open>a table has been created and the dialog is open again\<close>
  "dialogWorld =
     step noClock (step noClock (step noClock emptyWorld (OPEN_DIALOG None)) (SAVE_STATE []))
       (OPEN_DIALOG None)"

definition longerFirst :: "jsstring \<Rightarrow> jsstring \<Rightarrow> bool" where
  "longerFirst a b = (length b \<le> length a)"

definition dateRow :: "int \<Rightarrow> string \<Rightarrow> int \<Rightarrow> DataRow" where
  "dateRow i n t =
     \<lparr>row_id = i, row_name = js n, row_value = JDate (Instant t), row_type = TDate,
      row_dateFormat = Some FDate, row_output = Some [], row_formula = Some [], row_result = None\<rparr>"

definition firstClock :: clock where
  "firstClock = \<lparr>now_table = 1, now_transition = 1, now_target = 1\<rparr>"

definition slipClock :: clock where
  "slipClock = \<lparr>now_table = 1000, now_transition = 1000, now_target = 1001\<rparr>"

definition scenarioWorld :: world where
  "scenarioWorld =
     step firstClock
       (step firstClock (step firstClock emptyWorld (OPEN_DIALOG None))
          (SAVE_STATE [numberRow 1 ''x'' 10]))
       (OPEN_DIALOG (Some (js ''table-1'')))"

definition tableA :: StateTable where
  "tableA = \<lparr>tbl_id = js ''table-1'', tbl_x = 100, tbl_y = 100, tbl_data = [numberRow 1 ''x'' 10]\<rparr>"

definition tableB :: "jsval option \<Rightarrow> StateTable" where
  "tableB res = \<lparr>tbl_id = js ''table-2'', tbl_x = 600, tbl_y = 100,
                  tbl_data = [formulaRow 1 ''y'' TString ''x*2'' res]\<rparr>"

definition percentageRow :: "int \<Rightarrow> string \<Rightarrow> int \<Rightarrow> nat \<Rightarrow> DataRow" where
  "percentageRow i n m k =
     \<lparr>row_id = i, row_name = js n, row_value = JNum (Dec m k), row_type = TPercentage,
      row_dateFormat = None, row_output = Some [], row_formula = Some [], row_result = None\<rparr>"

definition tableD :: StateTable where
  "tableD = \<lparr>tbl_id = js ''table-3'', tbl_x = 0, tbl_y = 0,
              tbl_data = [dateRow 1 ''due'' 1700000000000, numberRow 2 ''x'' 10,
                          percentageRow 3 ''share'' 25 2]\<rparr>"

text \<open>
  The rows of the dialog opened on the table \<open>table-1\<close> after a row has been added,
  named \<open>y\<close> and given the formula \<open>x*2\<close> (the dialog computes the result when the
  formula is typed), the rows that \<open>handleSave\<close> sends, and the table that
  \<open>SAVE_STATE\<close> makes of them at the clock reading 1000.
\<close>

definition dialogRows :: "DataRow list" where
  "dialogRows =
     [numberRow 1 ''x'' 10,
      \<lparr>row_id = 2, row_name = js ''y'', row_value = JStr [], row_type = TString,
       row_dateFormat = None, row_output = None, row_formula = Some (js ''x*2''),
       row_result = Some (JNum (Fin 20))\<rparr>]"

definition sentRows :: "DataRow list" where
  "sentRows = [numberRow 1 ''x'' 10, formulaRow 2 ''y'' TString ''x*2'' (Some (JNum (Fin 20)))]"

definition tableNew :: StateTable where
  "tableNew = \<lparr>tbl_id = js ''table-1000'', tbl_x = 600, tbl_y = 100, tbl_data = sentRows\<rparr>"

definition arrow :: StateTransition where
  "arrow = \<lparr>tr_id = js ''transition-1'', tr_fromId = js ''table-1'', tr_toId = js ''table-3'',
            tr_text = Some (js ''next'')\<rparr>"















subsection \<open>Formulas with standard precedence\<close>

text \<open>
  The reading of the spec for C2. A formula is built from literals, names of rows and
  parentheses with \<open>*\<close> and \<open>/\<close>, which bind tighter, and \<open>+\<close> and \<open>-\<close>;
  operators of the same precedence associate to the left. This is the grammar of
  arithmetic: an additive expression is a sequence of multiplicative expressions joined
  by \<open>+\<close> and \<open>-\<close>, a multiplicative expression a sequence of primary expressions
  joined by \<open>*\<close> and \<open>/\<close>.

  Its value is the value in the integers, where the doubles compute it exactly: every
  intermediate result has magnitude at most \<open>2^53\<close>, a quotient is exact and its
  divisor is not zero, and no zero comes from a negative operand (the double would be the
  negative zero). Otherwise there is no value (\<open>None\<close>).
\<close>

datatype primary = Literal nat | Reference jsstring | Group additive
and multiplicative = Single primary | Product multiplicative primary | Quotient multiplicative primary
and additive = Only multiplicative | Total additive multiplicative | Difference additive multiplicative






text \<open>
  The text of a formula: its tokens in order, each after any number of spaces. A name
  is an identifier: not empty, made of word characters (letters, digits, \<open>_\<close>, the
  characters \<open>\u4e00-\u9fa5\<close>) and not starting with a digit.
\<close>

datatype ftoken = Lit nat | Nam jsstring | Sym nat

fun primaryTokens :: "primary \<Rightarrow> ftoken list"
  and multiplicativeTokens :: "multiplicative \<Rightarrow> ftoken list"
  and additiveTokens :: "additive \<Rightarrow> ftoken list" where
  "primaryTokens (Literal n) = [Lit n]"
| "primaryTokens (Reference x) = [Nam x]"
| "primaryTokens (Group s) = Sym 40 # additiveTokens s @ [Sym 41]"
| "multiplicativeTokens (Single f) = primaryTokens f"
| "multiplicativeTokens (Product t f) = multiplicativeTokens t @ Sym 42 # primaryTokens f"
| "multiplicativeTokens (Quotient t f) = multiplicativeTokens t @ Sym 47 # primaryTokens f"
| "additiveTokens (Only t) = multiplicativeTokens t"
| "additiveTokens (Total s t) = additiveTokens s @ Sym 43 # multiplicativeTokens t"
| "additiveTokens (Difference s t) = additiveTokens s @ Sym 45 # multiplicativeTokens t"

fun tokenText :: "ftoken \<Rightarrow> jsstring" where
  "tokenText (Lit n) = digits n"
| "tokenText (Nam x) = x"
| "tokenText (Sym c) = [c]"

fun spellBy :: "(ftoken \<Rightarrow> jsstring) \<Rightarrow> (nat \<times> ftoken) list \<Rightarrow> jsstring" where
  "spellBy f [] = []"
| "spellBy f ((k, t) # r) = replicate k 32 @ f t @ spellBy f r"

definition spell :: "(nat \<times> ftoken) list \<Rightarrow> jsstring" where
  "spell = spellBy tokenText"

definition isIdentifier :: "jsstring \<Rightarrow> bool" where
  "isIdentifier x = (x \<noteq> [] \<and> list_all (\<lambda>c. \<not> isBoundary c) x \<and> \<not> isDigit (hd x))"

text \<open>
  What the proofs follow through the stages of calculateFormula: \<open>shape\<close> tells
  whether operands and operators alternate in a list of tokens (\<open>True\<close> where an
  operand is expected); \<open>rename\<close> and \<open>resolveToken\<close> put the value of a name in
  its place; \<open>jsToken\<close> is the token that the lexer makes of a token of the formula,
  and \<open>primaryExpr\<close>, \<open>multiplicativeExpr\<close> and \<open>additiveExpr\<close> the tree that
  the parser makes of a formula, with the fuel that suffices for it.
\<close>

fun shape :: "bool \<Rightarrow> ftoken list \<Rightarrow> bool" where
  "shape e [] = True"
| "shape e (Sym c # r) =
     (if e then c = 40 \<and> shape True r
      else if c = 41 then shape False r
      else c \<in> set [42, 43, 45, 47] \<and> shape True r)"
| "shape e (t # r) = (e \<and> shape False r)"

definition rename :: "jsstring \<Rightarrow> nat \<Rightarrow> ftoken \<Rightarrow> ftoken" where
  "rename n a t = (if t = Nam n then Lit a else t)"

fun resolveToken :: "(jsstring \<Rightarrow> int) \<Rightarrow> ftoken \<Rightarrow> ftoken" where
  "resolveToken env (Nam x) = Lit (nat (env x))"
| "resolveToken env t = t"

fun jsToken :: "(jsstring \<Rightarrow> int) \<Rightarrow> ftoken \<Rightarrow> token" where
  "jsToken env (Lit n) = TNum (fin (int n))"
| "jsToken env (Nam x) = TNum (fin (env x))"
| "jsToken env (Sym c) =
     (if c = 43 then TPlus else if c = 45 then TMinus else if c = 42 then TStar
      else if c = 47 then TSlash else if c = 40 then TLParen else TRParen)"

fun primaryExpr :: "(jsstring \<Rightarrow> int) \<Rightarrow> primary \<Rightarrow> expr"
  and multiplicativeExpr :: "(jsstring \<Rightarrow> int) \<Rightarrow> multiplicative \<Rightarrow> expr"
  and additiveExpr :: "(jsstring \<Rightarrow> int) \<Rightarrow> additive \<Rightarrow> expr" where
  "primaryExpr env (Literal n) = Num (fin (int n))"
| "primaryExpr env (Reference x) = Num (fin (env x))"
| "primaryExpr env (Group s) = additiveExpr env s"
| "multiplicativeExpr env (Single f) = primaryExpr env f"
| "multiplicativeExpr env (Product t f) = Mul (multiplicativeExpr env t) (primaryExpr env f)"
| "multiplicativeExpr env (Quotient t f) = Div (multiplicativeExpr env t) (primaryExpr env f)"
| "additiveExpr env (Only t) = multiplicativeExpr env t"
| "additiveExpr env (Total s t) = Add (additiveExpr env s) (multiplicativeExpr env t)"
| "additiveExpr env (Difference s t) = Sub (additiveExpr env s) (multiplicativeExpr env t)"

fun primaryFuel :: "primary \<Rightarrow> nat"
  and multiplicativeFuel :: "multiplicative \<Rightarrow> nat"
  and additiveFuel :: "additive \<Rightarrow> nat" where
  "primaryFuel (Literal n) = 2"
| "primaryFuel (Reference x) = 2"
| "primaryFuel (Group s) = additiveFuel s + 4"
| "multiplicativeFuel (Single f) = primaryFuel f"
| "multiplicativeFuel (Product t f) = multiplicativeFuel t + primaryFuel f + 1"
| "multiplicativeFuel (Quotient t f) = multiplicativeFuel t + primaryFuel f + 1"
| "additiveFuel (Only t) = multiplicativeFuel t + 1"
| "additiveFuel (Total s t) = additiveFuel s + multiplicativeFuel t + 2"
| "additiveFuel (Difference s t) = additiveFuel s + multiplicativeFuel t + 2"

definition afterPrimary :: "ltoken list \<Rightarrow> bool" where
  "afterPrimary ts = (peek ts \<notin> {Some TLParen, Some TInc, Some TDec, Some TPow})"

definition afterMultiplicative :: "ltoken list \<Rightarrow> bool" where
  "afterMultiplicative ts = (afterPrimary ts \<and> peek ts \<notin> {Some TStar, Some TSlash})"

definition afterAdditive :: "ltoken list \<Rightarrow> bool" where
  "afterAdditive ts = (afterMultiplicative ts \<and> peek ts \<notin> {Some TPlus, Some TMinus})"

definition jsTokens :: "(jsstring \<Rightarrow> int) \<Rightarrow> ftoken list \<Rightarrow> ltoken list" where
  "jsTokens env ts = map (\<lambda>t. (False, jsToken env t)) ts"

definition parseMultiplicative :: "nat \<Rightarrow> ltoken list \<Rightarrow> (expr \<times> ltoken list) outcome" where
  "parseMultiplicative m ts = bind (parse m Unary ts) (\<lambda>p. parse m (MulRest (fst p)) (snd p))"

definition parseAdditive :: "nat \<Rightarrow> ltoken list \<Rightarrow> (expr \<times> ltoken list) outcome" where
  "parseAdditive m ts = bind (parseMultiplicative m ts) (\<lambda>p. parse m (AddRest (fst p)) (snd p))"

definition respell :: "(ftoken \<Rightarrow> ftoken) \<Rightarrow> (nat \<times> ftoken) list \<Rightarrow> (nat \<times> ftoken) list" where
  "respell g toks = map (\<lambda>p. (fst p, g (snd p))) toks"

definition wordText :: "jsstring \<Rightarrow> bool" where
  "wordText w = list_all (\<lambda>c. \<not> isBoundary c) w"

definition namesOk :: "ftoken list \<Rightarrow> bool" where
  "namesOk ts = (\<forall>x. Nam x \<in> set ts \<longrightarrow> isIdentifier x)"

definition endsNumber :: "jsstring \<Rightarrow> bool" where
  \<comment> \<open>a text before which a numeric literal is complete\<close>
  "endsNumber rest = (case rest of [] \<Rightarrow> True | c # _ \<Rightarrow> \<not> isDigit c \<and> c \<noteq> 46)"

definition opens :: "jsstring \<Rightarrow> bool" where
  "opens rest = (case rest of [] \<Rightarrow> True | d # _ \<Rightarrow> d = 32 \<or> isDigit d \<or> d = 40)"

section \<open>Evaluating the definitions\<close>

lemmas char_defs = isWhiteSpace_def isLineTerminator_def isDigit_def isLatin_def isCJK_def
  isWordChar_def isBoundary_def isLetter_def isAllowed_def isSyntaxChar_def

lemmas pool_defs = unresolved_def allData_def sortedData_def rowNumber_def

lemmas subst_defs = substituted_def replaceName_def isLiteralName_def patternFails_def
  matchesHere_def lookahead_def intToString_def digits.simps

lemmas eval_defs = evaluate_def parseFuel_def lexNumber_def decimalNumber_def fin_def divisionAllowed_def
  peek_def sameLine_def expectClose_def updateError_def

lemmas calc_defs = calculateFormula_def calculateFormulaCall_def tryBlock_def
  validExpression_def trim_def js_def
  char_defs pool_defs subst_defs eval_defs

lemmas store_defs = saveState_def saveTable_def saveRow_def jsonTable_def jsonRow_def orEmpty_def

lemmas machine_defs = step_def moveTable_def deleteTable_def updateTransition_def
  saveStateEvent_def saveTables_def saveTransitions_def selected_def initialContext_def
  tableId_def transitionId_def recalculateFormulas_def

lemmas row_defs = numberRow_def formulaRow_def


lemmas scenario_defs = tableA_def tableB_def tableD_def arrow_def dateRow_def percentageRow_def
  row_defs

section \<open>The value that calculateFormula returns\<close>

lemma calculateFormula_eq:
  "calculateFormula formula data tables =
     (if unresolved (trim formula) data tables = [] \<and> list_ex isLetter (trim formula)
        then Fin 0
      else case substituted formula data tables of
             Throw e \<Rightarrow> Fin 0
           | Beyond \<Rightarrow> Unmodelled
           | Ok expression \<Rightarrow>
               if \<not> validExpression expression then Fin 0
               else case evaluate expression of
                      Throw e \<Rightarrow> Fin 0
                    | Beyond \<Rightarrow> Unmodelled
                    | Ok None \<Rightarrow> Fin 0
                    | Ok (Some v) \<Rightarrow> v)"
  by (simp add: calculateFormula_def calculateFormulaCall_def tryBlock_def
        split: outcome.splits option.splits)

lemma allowed_not_letter: "isAllowed c \<Longrightarrow> \<not> isLetter c"
  by (auto simp: char_defs)

lemma valid_no_letter: "validExpression e \<Longrightarrow> \<not> list_ex isLetter e"
  by (auto simp: validExpression_def list_all_iff list_ex_iff dest: allowed_not_letter)

text \<open>
  C4, amended. Whenever the substituted expression validates and evaluates, calculateFormula
  returns the evaluated value as it is if it is a number, the infinities and NaN included
  (the test of the source is \<open>typeof result === 'number'\<close>, which they pass); it
  returns 0 when the evaluation yields no number (\<open>undefined\<close>).
\<close>

theorem C4_number_returned_as_is:
  assumes "substituted formula data tables = Ok expression"
    and "validExpression expression"
  shows "(evaluate expression = Ok (Some v) \<longrightarrow> calculateFormula formula data tables = v)
       \<and> (evaluate expression = Ok None \<longrightarrow> calculateFormula formula data tables = Fin 0)"
proof -
  have "\<not> (unresolved (trim formula) data tables = [] \<and> list_ex isLetter (trim formula))"
  proof
    assume a: "unresolved (trim formula) data tables = [] \<and> list_ex isLetter (trim formula)"
    with assms(1) have "expression = trim formula"
      by (simp add: substituted_def)
    with assms(2) a show False
      using valid_no_letter by blast
  qed
  with assms show ?thesis
    by (auto simp: calculateFormula_eq)
qed

text \<open>The amended C4 at \<open>0/0\<close>: the expression evaluates to NaN, and NaN is returned.\<close>

theorem C4_witness:
  "substituted (js ''0/0'') [] None = Ok (js ''0/0'') \<and> validExpression (js ''0/0'')
   \<and> evaluate (js ''0/0'') = Ok (Some NaN) \<and> calculateFormula (js ''0/0'') [] None = NaN"
proof -
  have s: "substituted (js ''0/0'') [] None = Ok (js ''0/0'')"
    by (simp add: calc_defs)
  have v: "validExpression (js ''0/0'')"
    by (simp add: calc_defs)
  have e: "evaluate (js ''0/0'') = Ok (Some NaN)"
    by (simp add: calc_defs)
  from C4_number_returned_as_is [OF s v, of NaN] s v e show ?thesis
    by blast
qed

text \<open>
  C4 as stated fails: \<open>1/0\<close> validates and evaluates to Infinity, which is not finite,
  and calculateFormula returns Infinity, not 0.
\<close>

theorem C4_counterexample:
  "validExpression (js ''1/0'') \<and> evaluate (js ''1/0'') = Ok (Some PosInf)
   \<and> calculateFormula (js ''1/0'') [] None = PosInf \<and> PosInf \<noteq> Fin 0"
  by (simp add: calc_defs)

section \<open>The names found in a formula\<close>

lemma nameValueMap_keys:
  "fst ` set (nameValueMap m rows) =
     fst ` set m \<union> {row_name r |r. r \<in> set rows \<and> row_name r \<noteq> []}"
  by (induction rows arbitrary: m) (auto simp: image_Un)

lemma set_sortedData: "set (sortedData rows) = set rows"
  by (simp add: sortedData_def)

lemma unresolved_keys:
  "fst ` set (unresolved expression data tables) =
     {row_name r |r. r \<in> set (allData data tables) \<and> row_name r \<noteq> []
        \<and> includes_str expression (row_name r)}"
proof -
  have "fst ` set (unresolved expression data tables) =
      {n \<in> fst ` set (nameValueMap [] (sortedData (allData data tables))).
         includes_str expression n}"
    by (auto simp: unresolved_def image_iff)
  then show ?thesis
    by (auto simp: nameValueMap_keys set_sortedData)
qed

lemma unresolved_empty_iff:
  "unresolved expression data tables = [] \<longleftrightarrow>
     (\<forall>r \<in> set (allData data tables).
        row_name r \<noteq> [] \<longrightarrow> \<not> includes_str expression (row_name r))"
proof -
  have "unresolved expression data tables = [] \<longleftrightarrow>
          fst ` set (unresolved expression data tables) = {}"
    by simp
  then show ?thesis
    unfolding unresolved_keys by blast
qed

section \<open>Rows of empty name\<close>

lemma sortedData_filter: "sortedData (filter P rows) = filter P (sortedData rows)"
  by (simp add: sortedData_def filter_sort)

lemma nameValueMap_named: "nameValueMap m (filter namedRow rows) = nameValueMap m rows"
  by (induction rows arbitrary: m) (auto simp: namedRow_def)

lemma allData_named:
  "allData (filter namedRow data) (map_option (map namedTable) tables)
     = filter namedRow (allData data tables)"
  by (cases tables) (simp_all add: allData_def namedTable_def filter_concat comp_def)

lemma unresolved_named:
  "unresolved expression (filter namedRow data) (map_option (map namedTable) tables)
     = unresolved expression data tables"
  by (simp add: unresolved_def allData_named sortedData_filter nameValueMap_named)

text \<open>
  C10. A row whose name is the empty string takes no part in the resolution of names:
  calculateFormula returns the same value when the rows of empty name are removed from
  the local rows and from every supplied table.
\<close>

theorem C10_empty_names_ignored:
  "calculateFormula formula (filter namedRow data) (map_option (map namedTable) tables)
     = calculateFormula formula data tables"
  by (simp add: calculateFormula_def calculateFormulaCall_def tryBlock_def substituted_def
        unresolved_named)

section \<open>recalculateFormulas\<close>

lemma insort_sameInputs:
  assumes "list_all2 sameInputs xs ys" and "sameInputs x y"
  shows "list_all2 sameInputs
           (insort_key (\<lambda>row. - int (length (row_name row))) x xs)
           (insort_key (\<lambda>row. - int (length (row_name row))) y ys)"
  using assms
  by (induction xs ys rule: list_all2_induct) (auto simp: sameInputs_def)

lemma sortedData_sameInputs:
  "list_all2 sameInputs xs ys \<Longrightarrow> list_all2 sameInputs (sortedData xs) (sortedData ys)"
  unfolding sortedData_def
  by (induction xs ys rule: list_all2_induct) (auto intro: insort_sameInputs)

lemma nameValueMap_sameInputs:
  "list_all2 sameInputs xs ys \<Longrightarrow> nameValueMap m xs = nameValueMap m ys"
proof (induction xs ys arbitrary: m rule: list_all2_induct)
  case Nil
  show ?case by simp
next
  case (Cons x xs y ys)
  from Cons(1) have "row_name x = row_name y" and "rowNumber x = rowNumber y"
    by (simp_all add: sameInputs_def rowNumber_def split: rowtype.splits)
  with Cons(3) show ?case by simp
qed

lemma allData_sameInputs:
  "list_all2 sameInputs d d' \<Longrightarrow> list_all2 sameInputs (allData d tables) (allData d' tables)"
  by (cases tables) (auto simp: allData_def sameInputs_def intro!: list_all2_appendI list_all2_refl)

lemma calculateFormula_sameInputs:
  assumes "list_all2 sameInputs d d'"
  shows "calculateFormula formula d tables = calculateFormula formula d' tables"
proof -
  have "unresolved e d tables = unresolved e d' tables" for e
    unfolding unresolved_def
    using assms allData_sameInputs nameValueMap_sameInputs sortedData_sameInputs by metis
  then show ?thesis
    by (simp add: calculateFormula_def calculateFormulaCall_def tryBlock_def substituted_def)
qed

lemma recalculate_sameInputs: "list_all2 sameInputs rows (recalculateFormulas rows tables)"
  by (auto simp: recalculateFormulas_def list_all2_conv_all_nth sameInputs_def split: option.splits)

text \<open>
  C7. recalculateFormulas returns a sequence of the same length and order. A row of type
  \<open>formula\<close> with a non-empty formula comes back with its result recomputed by
  calculateFormula over the given rows and tables, and with every other field as it was;
  every other row comes back unchanged. The result is a new sequence: \<open>rows\<close> itself
  is the argument, which a function of the model cannot alter.
\<close>

theorem C7_recalculate_frame:
  "length (recalculateFormulas rows tables) = length rows
   \<and> (\<forall>i < length rows.
        recalculateFormulas rows tables ! i =
          (if row_type (rows ! i) = TFormula \<and> orEmpty (row_formula (rows ! i)) \<noteq> []
             then (rows ! i)\<lparr>row_result :=
                    Some (JNum (calculateFormula (orEmpty (row_formula (rows ! i))) rows (Some tables)))\<rparr>
           else rows ! i))"
  by (auto simp: recalculateFormulas_def orEmpty_def split: option.splits)

text \<open>
  C7 at the rows \<open>x = 10\<close> and \<open>y = x*2\<close>: the first comes back unchanged, the
  second with the result 20.
\<close>

theorem C7_witness:
  "(1::nat) < length [numberRow 1 ''x'' 10, formulaRow 2 ''y'' TFormula ''x*2'' None]
   \<and> recalculateFormulas [numberRow 1 ''x'' 10, formulaRow 2 ''y'' TFormula ''x*2'' None] [] ! 0
       = numberRow 1 ''x'' 10
   \<and> recalculateFormulas [numberRow 1 ''x'' 10, formulaRow 2 ''y'' TFormula ''x*2'' None] [] ! 1
       = formulaRow 2 ''y'' TFormula ''x*2'' (Some (JNum (Fin 20)))"
proof -
  let ?x = "numberRow 1 ''x'' 10"
  let ?y = "formulaRow 2 ''y'' TFormula ''x*2'' None"
  have c: "calculateFormula (js ''x*2'') [?x, ?y] (Some []) = Fin 20"
    by (simp add: calc_defs row_defs)
  have f: "orEmpty (row_formula ?y) = js ''x*2''" "row_type ?y = TFormula" "row_type ?x = TNumber"
    by (simp_all add: row_defs orEmpty_def)
  have n: "js ''x*2'' \<noteq> []"
    by (simp add: js_def)
  have u: "?y\<lparr>row_result := Some (JNum (Fin 20))\<rparr>
             = formulaRow 2 ''y'' TFormula ''x*2'' (Some (JNum (Fin 20)))"
    by (simp add: row_defs)
  have all: "\<forall>i < length [?x, ?y].
        recalculateFormulas [?x, ?y] [] ! i =
          (if row_type ([?x, ?y] ! i) = TFormula \<and> orEmpty (row_formula ([?x, ?y] ! i)) \<noteq> []
             then ([?x, ?y] ! i)\<lparr>row_result :=
                    Some (JNum (calculateFormula (orEmpty (row_formula ([?x, ?y] ! i))) [?x, ?y] (Some [])))\<rparr>
           else [?x, ?y] ! i)"
    using C7_recalculate_frame [of "[?x, ?y]" "[]"] by blast
  have r0: "recalculateFormulas [?x, ?y] [] ! 0 = ?x"
    using all [rule_format, of 0] f by simp
  have r1: "recalculateFormulas [?x, ?y] [] ! 1 = formulaRow 2 ''y'' TFormula ''x*2'' (Some (JNum (Fin 20)))"
    using all [rule_format, of 1] f n c u by simp
  from r0 r1 show ?thesis by simp
qed

text \<open>
  C8. recalculateFormulas is idempotent: calculateFormula reads the name, the type and the
  value of the rows of its pool and never their result, so a second pass over the rows
  that the first pass returned computes the same results.
\<close>

theorem C8_recalculate_idempotent:
  "recalculateFormulas (recalculateFormulas rows tables) tables = recalculateFormulas rows tables"
proof -
  define again where "again = recalculateFormulas rows tables"
  have eq: "calculateFormula f again (Some tables) = calculateFormula f rows (Some tables)" for f
    unfolding again_def
    using calculateFormula_sameInputs [OF recalculate_sameInputs] by metis
  have "recalculateFormulas again tables = map (\<lambda>row.
            case row_formula row of
              None \<Rightarrow> row
            | Some formula \<Rightarrow>
                if row_type row = TFormula \<and> formula \<noteq> []
                  then row\<lparr>row_result := Some (JNum (calculateFormula formula rows (Some tables)))\<rparr>
                else row) again"
    unfolding recalculateFormulas_def [of again] eq ..
  also have "\<dots> = again"
    unfolding again_def recalculateFormulas_def [of rows]
    by (auto split: option.splits)
  finally show ?thesis
    by (simp add: again_def)
qed

section \<open>DELETE_TABLE\<close>

text \<open>
  C6, amended. In the state \<open>idle\<close>, the only state in which the machine handles
  \<open>DELETE_TABLE\<close>, the collections that result from \<open>DELETE_TABLE(id)\<close> hold no
  table with that id and no transition whose \<open>fromId\<close> or \<open>toId\<close> is that id,
  whatever the context was (the contexts of the reachable states included).
\<close>

theorem C6_delete_table_idle:
  assumes "machine w = Idle"
  shows "(\<forall>t \<in> set (stateTables (ctx (step k w (DELETE_TABLE i)))). tbl_id t \<noteq> i)
       \<and> (\<forall>tr \<in> set (stateTransitions (ctx (step k w (DELETE_TABLE i)))).
             tr_fromId tr \<noteq> i \<and> tr_toId tr \<noteq> i)"
  using assms by (simp add: step_def deleteTable_def Let_def)

lemma dialogWorld_eval:
  "machine dialogWorld = DialogOpen
   \<and> map tbl_id (stateTables (ctx dialogWorld)) = [js ''table-1000'']
   \<and> stateTransitions (ctx dialogWorld) = []"
  by (simp add: dialogWorld_def emptyWorld_def noClock_def machine_defs store_defs js_def
        intToString_def digits.simps Let_def)

lemma reachable_dialogWorld: "reachable dialogWorld"
proof -
  have "reachable emptyWorld"
    unfolding emptyWorld_def by (rule reachable.initial)
  then show ?thesis
    unfolding dialogWorld_def by (intro reachable.step)
qed

text \<open>
  C6 at the idle state reached from \<open>dialogWorld\<close> by closing the dialog: the table
  \<open>table-1000\<close> is there before \<open>DELETE_TABLE\<close> and gone after it.
\<close>

theorem C6_witness:
  "machine (step noClock dialogWorld CLOSE_DIALOG) = Idle
   \<and> map tbl_id (stateTables (ctx (step noClock dialogWorld CLOSE_DIALOG))) = [js ''table-1000'']
   \<and> stateTables (ctx (step noClock (step noClock dialogWorld CLOSE_DIALOG)
         (DELETE_TABLE (js ''table-1000'')))) = []
   \<and> stateTransitions (ctx (step noClock (step noClock dialogWorld CLOSE_DIALOG)
         (DELETE_TABLE (js ''table-1000'')))) = []"
proof -
  let ?w = "step noClock dialogWorld CLOSE_DIALOG"
  let ?w' = "step noClock ?w (DELETE_TABLE (js ''table-1000''))"
  have i: "machine ?w = Idle"
    using dialogWorld_eval by (simp add: step_def)
  have t: "map tbl_id (stateTables (ctx ?w)) = [js ''table-1000'']"
    using dialogWorld_eval by (simp add: step_def)
  have r: "stateTransitions (ctx ?w) = []"
    using dialogWorld_eval by (simp add: step_def)
  have sub: "set (stateTables (ctx ?w')) \<subseteq> set (stateTables (ctx ?w))"
    using i by (auto simp: step_def deleteTable_def Let_def)
  have none: "\<forall>t \<in> set (stateTables (ctx ?w')). tbl_id t \<noteq> js ''table-1000''"
    using C6_delete_table_idle [OF i, of noClock "js ''table-1000''"] by blast
  have a: "stateTables (ctx ?w') = []"
  proof (cases "stateTables (ctx ?w')")
    case Nil
    then show ?thesis .
  next
    case (Cons x xs)
    then have x: "x \<in> set (stateTables (ctx ?w'))"
      by simp
    with sub have "tbl_id x \<in> set (map tbl_id (stateTables (ctx ?w)))"
      by auto
    with t have "tbl_id x = js ''table-1000''"
      by simp
    with none x show ?thesis
      by blast
  qed
  have b: "stateTransitions (ctx ?w') = []"
    using i r by (simp add: step_def deleteTable_def Let_def)
  from i t a b show ?thesis by blast
qed

text \<open>
  C6 as stated fails in the state \<open>dialogOpen\<close>, which the machine reaches with a table
  in its context: there \<open>DELETE_TABLE\<close> is not handled, and the table is still in the
  collection after the event.
\<close>

theorem C6_counterexample:
  "reachable dialogWorld \<and> machine dialogWorld = DialogOpen
   \<and> map tbl_id (stateTables (ctx (step noClock dialogWorld (DELETE_TABLE (js ''table-1000'')))))
       = [js ''table-1000'']"
proof -
  have "step noClock dialogWorld (DELETE_TABLE (js ''table-1000'')) = dialogWorld"
    using dialogWorld_eval by (simp add: step_def)
  then show ?thesis
    using dialogWorld_eval reachable_dialogWorld by simp
qed

section \<open>The order in which names are resolved\<close>

lemma nameValueMap_distinct:
  "distinct (map fst m) \<Longrightarrow> distinct (map fst (nameValueMap m rows))"
  by (induction rows arbitrary: m) auto

lemma nameValueMap_lookup:
  "map_of (nameValueMap m rows) n =
     (case map_of m n of
        Some v \<Rightarrow> Some v
      | None \<Rightarrow> if n = [] then None
                else map_option rowNumber (find (\<lambda>r. row_name r = n) rows))"
proof (induction rows arbitrary: m)
  case Nil
  show ?case by (simp split: option.splits)
next
  case (Cons r rows)
  show ?case
  proof (cases "row_name r = [] \<or> row_name r \<in> fst ` set m")
    case True
    then have skip: "nameValueMap m (r # rows) = nameValueMap m rows"
      by auto
    show ?thesis
    proof (cases "map_of m n")
      case None
      then have "n \<notin> fst ` set m"
        by (simp add: map_of_eq_None_iff)
      with True have "n \<noteq> [] \<Longrightarrow> row_name r \<noteq> n"
        by auto
      with None show ?thesis
        unfolding skip Cons.IH by auto
    next
      case (Some v)
      then show ?thesis
        unfolding skip Cons.IH by simp
    qed
  next
    case False
    then have add: "nameValueMap m (r # rows) = nameValueMap (m @ [(row_name r, rowNumber r)]) rows"
      by auto
    from False have none: "map_of m (row_name r) = None"
      by (simp add: map_of_eq_None_iff)
    show ?thesis
    proof (cases "map_of m n")
      case None
      with False show ?thesis
        unfolding add Cons.IH by (auto simp: map_add_def)
    next
      case (Some v)
      then show ?thesis
        unfolding add Cons.IH by (simp add: map_add_def)
    qed
  qed
qed

lemma find_filter: "find P xs = (case filter P xs of [] \<Rightarrow> None | x # _ \<Rightarrow> Some x)"
  by (induction xs) auto

lemma filter_name_sortedData:
  "filter (\<lambda>r. row_name r = n) (sortedData rows) = filter (\<lambda>r. row_name r = n) rows"
proof -
  let ?f = "\<lambda>row. - int (length (row_name row))"
  have "filter (\<lambda>r. row_name r = n) xs
          = filter (\<lambda>r. row_name r = n) (filter (\<lambda>r. ?f r = - int (length n)) xs)" for xs
    by (induction xs) auto
  then show ?thesis
    unfolding sortedData_def by (metis sort_key_stable)
qed

lemma find_sortedData:
  "find (\<lambda>r. row_name r = n) (sortedData rows) = find (\<lambda>r. row_name r = n) rows"
  by (simp add: find_filter filter_name_sortedData)

lemma nameValueMap_sorted:
  "sorted_wrt longerFirst (map fst m @ map row_name rows)
     \<Longrightarrow> sorted_wrt longerFirst (map fst (nameValueMap m rows))"
proof (induction rows arbitrary: m)
  case Nil
  then show ?case by simp
next
  case (Cons r rows)
  have "sorted_wrt longerFirst (map fst m @ map row_name rows)"
    using Cons.prems by (auto simp: sorted_wrt_append)
  moreover have "sorted_wrt longerFirst (map fst (m @ [(row_name r, rowNumber r)]) @ map row_name rows)"
    using Cons.prems by simp
  ultimately show ?case
    using Cons.IH by simp
qed

lemma sortedData_sorted: "sorted_wrt longerFirst (map row_name (sortedData rows))"
proof -
  have "sorted (map (\<lambda>row. - int (length (row_name row))) (sortedData rows))"
    unfolding sortedData_def by (rule sorted_sort_key)
  then show ?thesis
    by (simp add: sorted_wrt_map longerFirst_def sorted_map)
qed

lemma unresolved_distinct: "distinct (map fst (unresolved expression data tables))"
  unfolding unresolved_def
  by (intro distinct_map_filter nameValueMap_distinct) simp

lemma map_of_filter_key:
  "map_of (filter (\<lambda>p. P (fst p)) xs) n = (if P n then map_of xs n else None)"
  by (induction xs) auto

lemma unresolved_lookup:
  "map_of (unresolved expression data tables) n =
     (if n \<noteq> [] \<and> includes_str expression n
        then map_option rowNumber (find (\<lambda>r. row_name r = n) (allData data tables))
      else None)"
  by (simp add: unresolved_def map_of_filter_key nameValueMap_lookup find_sortedData)

lemma unresolved_sorted:
  "sorted_wrt longerFirst (map fst (unresolved expression data tables))"
proof -
  have "sorted_wrt longerFirst (map fst (nameValueMap [] (sortedData (allData data tables))))"
    by (rule nameValueMap_sorted) (simp add: sortedData_sorted)
  then show ?thesis
    unfolding unresolved_def
    by (simp add: sorted_wrt_map sorted_wrt_filter)
qed

lemma single_entry:
  assumes "distinct (map fst xs)" and "fst ` set xs = {n}" and "map_of xs n = Some v"
  shows "xs = [(n, v)]"
proof (cases xs)
  case Nil
  with assms(2) show ?thesis by simp
next
  case (Cons p ps)
  have "ps = []"
  proof (cases ps)
    case Nil then show ?thesis .
  next
    case (Cons q qs)
    with \<open>xs = p # ps\<close> assms(2) have "fst p = n" "fst q = n" by auto
    with \<open>xs = p # ps\<close> Cons assms(1) show ?thesis by auto
  qed
  with Cons assms(2,3) show ?thesis by (cases p) auto
qed

lemma two_entries:
  assumes "distinct (map fst xs)" and "fst ` set xs = {a, b}" and "length b < length a"
    and "sorted_wrt longerFirst (map fst xs)"
    and "map_of xs a = Some v" and "map_of xs b = Some w"
  shows "xs = [(a, v), (b, w)]"
proof -
  from assms(3) have ab: "a \<noteq> b" by auto
  from assms(5) obtain ys zs where split: "xs = ys @ (a, v) # zs"
    by (meson map_of_SomeD split_list)
  have "ys = []"
  proof (cases ys)
    case Nil then show ?thesis .
  next
    case (Cons p ps)
    with split assms(2) have "fst p = a \<or> fst p = b" by auto
    moreover from Cons split assms(1) have "fst p \<noteq> a" by auto
    moreover from Cons split assms(4) have "longerFirst (fst p) a" by auto
    ultimately show ?thesis using assms(3) by (simp add: longerFirst_def)
  qed
  with split have xs: "xs = (a, v) # zs" by simp
  with assms(1) have "a \<notin> fst ` set zs" by auto
  with xs assms(2) ab have "fst ` set zs = {b}" by auto
  moreover from xs assms(1) have "distinct (map fst zs)" by simp
  moreover from xs assms(6) ab have "map_of zs b = Some w" by simp
  ultimately have "zs = [(b, w)]" using single_entry [of zs b w] by simp
  with xs show ?thesis by simp
qed

lemma find_name_mem: "find (\<lambda>r. row_name r = n) rows = Some r \<Longrightarrow> r \<in> set rows \<and> row_name r = n"
  by (auto simp: find_Some_iff)

lemma number_row: "row_type r = TNumber \<Longrightarrow> row_value r = JNum v \<Longrightarrow> rowNumber r = v"
  by (simp add: rowNumber_def)

text \<open>
  C1, amended. When the first row named \<open>tax_rate\<close> in the pool (the local rows, then
  the rows of the tables) is a number row of value 10, the first row named \<open>rate\<close> is a
  number row of value 5, and no other name of the pool occurs in the formula text,
  \<open>calculateFormula("tax_rate + 1")\<close> returns 11: the names found in the formula are
  resolved longest first, \<open>tax_rate\<close> before \<open>rate\<close>, and \<open>rate\<close> does not touch
  the occurrence of \<open>tax_rate\<close>.
\<close>

theorem C1_longest_name_first:
  assumes tax: "find (\<lambda>r. row_name r = js ''tax_rate'') (allData data tables) = Some r1"
      "row_type r1 = TNumber" "row_value r1 = JNum (Fin 10)"
    and rate: "find (\<lambda>r. row_name r = js ''rate'') (allData data tables) = Some r2"
      "row_type r2 = TNumber" "row_value r2 = JNum (Fin 5)"
    and others: "\<forall>r \<in> set (allData data tables).
      row_name r \<noteq> [] \<and> includes_str (js ''tax_rate + 1'') (row_name r)
        \<longrightarrow> row_name r = js ''rate'' \<or> row_name r = js ''tax_rate''"
  shows "unresolved (js ''tax_rate + 1'') data tables = [(js ''tax_rate'', Fin 10), (js ''rate'', Fin 5)]
       \<and> calculateFormula (js ''tax_rate + 1'') data tables = Fin 11"
proof -
  let ?e = "js ''tax_rate + 1''"
  have inc: "includes_str ?e (js ''tax_rate'')" "includes_str ?e (js ''rate'')"
       "js ''tax_rate'' \<noteq> []" "js ''rate'' \<noteq> []"
    by (simp_all add: js_def)
  have keys: "fst ` set (unresolved ?e data tables) = {js ''tax_rate'', js ''rate''}"
    unfolding unresolved_keys
  proof (intro equalityI subsetI)
    fix n
    assume "n \<in> {row_name r |r. r \<in> set (allData data tables) \<and> row_name r \<noteq> []
                    \<and> includes_str ?e (row_name r)}"
    with others show "n \<in> {js ''tax_rate'', js ''rate''}"
      by auto
  next
    fix n
    assume "n \<in> {js ''tax_rate'', js ''rate''}"
    moreover have "row_name r1 \<in> {row_name r |r. r \<in> set (allData data tables) \<and> row_name r \<noteq> []
                    \<and> includes_str ?e (row_name r)}"
      using find_name_mem [OF tax(1)] inc by (intro CollectI exI [of _ r1]) simp
    moreover have "row_name r2 \<in> {row_name r |r. r \<in> set (allData data tables) \<and> row_name r \<noteq> []
                    \<and> includes_str ?e (row_name r)}"
      using find_name_mem [OF rate(1)] inc by (intro CollectI exI [of _ r2]) simp
    ultimately show "n \<in> {row_name r |r. r \<in> set (allData data tables) \<and> row_name r \<noteq> []
                    \<and> includes_str ?e (row_name r)}"
      using find_name_mem [OF tax(1)] find_name_mem [OF rate(1)] by auto
  qed
  have l1: "map_of (unresolved ?e data tables) (js ''tax_rate'') = Some (Fin 10)"
    using inc tax by (simp add: unresolved_lookup number_row)
  have l2: "map_of (unresolved ?e data tables) (js ''rate'') = Some (Fin 5)"
    using inc rate by (simp add: unresolved_lookup number_row)
  have len: "length (js ''rate'') < length (js ''tax_rate'')"
    by (simp add: js_def)
  have u: "unresolved ?e data tables = [(js ''tax_rate'', Fin 10), (js ''rate'', Fin 5)]"
    using two_entries [OF unresolved_distinct keys len unresolved_sorted l1 l2] .
  have t: "trim ?e = ?e"
    by (simp add: trim_def js_def char_defs)
  have s: "substitute [(js ''tax_rate'', Fin 10), (js ''rate'', Fin 5)] (Ok ?e) = Ok (js ''10 + 1'')"
    by (simp add: js_def char_defs subst_defs)
  have v: "validExpression (js ''10 + 1'')"
    by (simp add: validExpression_def js_def char_defs)
  have e: "evaluate (js ''10 + 1'') = Ok (Some (Fin 11))"
    by (simp add: js_def char_defs eval_defs)
  have "calculateFormula ?e data tables = Fin 11"
    unfolding calculateFormula_eq substituted_def t u s
    using v e by simp
  with u show ?thesis by simp
qed

text \<open>
  The amended C1 at a pool with the row \<open>rate\<close> among the local rows, the row
  \<open>tax_rate\<close> in a table, and one more row whose name is not in the formula.
\<close>

theorem C1_witness:
  "calculateFormula (js ''tax_rate + 1'') [numberRow 1 ''rate'' 5, numberRow 2 ''cost'' 3]
     (Some [\<lparr>tbl_id = js ''t'', tbl_x = 0, tbl_y = 0, tbl_data = [numberRow 1 ''tax_rate'' 10]\<rparr>])
   = Fin 11"
proof -
  let ?data = "[numberRow 1 ''rate'' 5, numberRow 2 ''cost'' 3]"
  let ?tables = "Some [\<lparr>tbl_id = js ''t'', tbl_x = 0, tbl_y = 0, tbl_data = [numberRow 1 ''tax_rate'' 10]\<rparr>]"
  have pool: "allData ?data ?tables = [numberRow 1 ''rate'' 5, numberRow 2 ''cost'' 3, numberRow 1 ''tax_rate'' 10]"
    by (simp add: allData_def)
  have a: "find (\<lambda>r. row_name r = js ''tax_rate'') (allData ?data ?tables) = Some (numberRow 1 ''tax_rate'' 10)"
    unfolding pool by (simp add: row_defs js_def)
  have b: "find (\<lambda>r. row_name r = js ''rate'') (allData ?data ?tables) = Some (numberRow 1 ''rate'' 5)"
    unfolding pool by (simp add: row_defs js_def)
  have c: "\<forall>r \<in> set (allData ?data ?tables).
      row_name r \<noteq> [] \<and> includes_str (js ''tax_rate + 1'') (row_name r)
        \<longrightarrow> row_name r = js ''rate'' \<or> row_name r = js ''tax_rate''"
    unfolding pool by (simp add: row_defs js_def)
  from C1_longest_name_first [OF a _ _ b _ _ c] show ?thesis
    by (simp add: row_defs)
qed

text \<open>
  C1 as stated fails: the pool holds a row \<open>rate\<close> of value 5 and a row \<open>tax_rate\<close> of
  value 10, but another row named \<open>tax_rate\<close>, of value 7, comes first; only the first
  value of a name is kept, and the result is 8.
\<close>

theorem C1_counterexample:
  "calculateFormula (js ''tax_rate + 1'')
     [numberRow 1 ''tax_rate'' 7, numberRow 2 ''rate'' 5, numberRow 3 ''tax_rate'' 10] None = Fin 8"
  by (simp add: calc_defs row_defs)

section \<open>What the substitution keeps and what it throws\<close>

lemma startsWith_append: "startsWith s n \<Longrightarrow> s = n @ drop (length n) s"
  by (induction s n rule: startsWith.induct) auto

lemma replaceAll_keeps:
  "c \<in> set s \<Longrightarrow> c \<notin> set name \<Longrightarrow> c \<in> set (replaceAll name v start s)"
proof (induction name v start s rule: replaceAll.induct)
  case (1 name v start)
  then show ?case by simp
next
  case (2 name v start d s)
  show ?case
  proof (cases "name = []")
    case True
    with 2(4) show ?thesis by simp
  next
    case ne: False
    show ?thesis
    proof (cases "start \<and> matchesHere name (d # s)")
      case True
      then have "d # s = name @ drop (length name) (d # s)"
        using startsWith_append by (simp add: matchesHere_def)
      with 2(4,5) have "c \<in> set (drop (length name) (d # s))"
        by (metis Un_iff set_append)
      with 2(1) [OF ne True _ 2(5)] ne True show ?thesis by simp
    next
      case nm: False
      show ?thesis
      proof (cases "isBoundary d \<and> matchesHere name s")
        case True
        then have "s = name @ drop (length name) s"
          using startsWith_append by (simp add: matchesHere_def)
        with 2(4,5) have "c = d \<or> c \<in> set (drop (length name) s)"
          by (metis Un_iff set_append set_ConsD)
        with 2(2) [OF ne nm True _ 2(5)] ne nm True show ?thesis by auto
      next
        case False
        with 2(3) [OF ne nm False _ 2(5)] 2(4) ne nm show ?thesis by auto
      qed
    qed
  qed
qed

lemma substitute_throws:
  "\<exists>p \<in> set xs. patternFails (fst p) \<Longrightarrow> substitute xs e = Throw SyntaxError"
proof (induction xs arbitrary: e)
  case Nil
  then show ?case by simp
next
  case (Cons p xs)
  obtain n v where p: "p = (n, v)" by (cases p)
  show ?case
  proof (cases "patternFails n")
    case True
    then show ?thesis by (simp add: p)
  next
    case False
    with Cons.prems p have "\<exists>q \<in> set xs. patternFails (fst q)" by auto
    from Cons.IH [OF this] False show ?thesis by (simp add: p)
  qed
qed

lemma groupDepth_plain: "40 \<notin> set n \<Longrightarrow> 41 \<notin> set n \<Longrightarrow> groupDepth d n = Some d"
  by (induction n) auto

lemma literal_compiles: "isLiteralName n \<Longrightarrow> \<not> patternFails n"
proof -
  assume "isLiteralName n"
  then have "40 \<notin> set n" "41 \<notin> set n"
    by (auto simp: isLiteralName_def list_ex_iff isSyntaxChar_def)
  then show ?thesis
    by (simp add: patternFails_def groupDepth_plain)
qed

lemma numToString_no_throw: "numToString v \<noteq> Throw err"
  by (cases v) auto

lemma substitute_keeps:
  assumes "\<forall>p \<in> set xs. isLiteralName (fst p) \<and> fst p \<noteq> [] \<and> numToString (snd p) \<noteq> Beyond \<and> c \<notin> set (fst p)"
    and "c \<in> set e"
  shows "\<exists>e'. substitute xs (Ok e) = Ok e' \<and> c \<in> set e'"
  using assms
proof (induction xs arbitrary: e)
  case Nil
  then show ?case by simp
next
  case (Cons p xs)
  obtain n v where p: "p = (n, v)" by (cases p)
  from Cons.prems p have n: "isLiteralName n" "n \<noteq> []" "numToString v \<noteq> Beyond" "c \<notin> set n"
    by auto
  from n(3) numToString_no_throw obtain str where str: "numToString v = Ok str"
    by (cases "numToString v") auto
  have r: "replaceName n v e = Ok (replaceAll n str True e)"
    using n(1,2) str by (simp add: replaceName_def)
  have "c \<in> set (replaceAll n str True e)"
    using Cons.prems(2) n(4) by (rule replaceAll_keeps)
  moreover from Cons.prems(1) have "\<forall>p \<in> set xs. isLiteralName (fst p) \<and> fst p \<noteq> []
      \<and> numToString (snd p) \<noteq> Beyond \<and> c \<notin> set (fst p)"
    by simp
  ultimately have "\<exists>e'. substitute xs (Ok (replaceAll n str True e)) = Ok e' \<and> c \<in> set e'"
    using Cons.IH by blast
  then show ?case
    using literal_compiles [OF n(1)] r by (simp add: p)
qed

lemma unresolved_entry:
  assumes "(n, v) \<in> set (unresolved e d t)"
  shows "\<exists>r \<in> set (allData d t). row_name r = n \<and> n \<noteq> [] \<and> includes_str e n \<and> rowNumber r = v"
proof -
  from assms have "map_of (unresolved e d t) n = Some v"
    using unresolved_distinct by (simp add: map_of_is_SomeI)
  then show ?thesis
    by (auto simp: unresolved_lookup find_Some_iff split: if_splits)
qed

section \<open>SAVE_STATE\<close>

lemma scenarioWorld_eval:
  "machine scenarioWorld = DialogOpen
   \<and> selectedTableId (ctx scenarioWorld) = Some (js ''table-1'')
   \<and> stateTransitions (ctx scenarioWorld) = []
   \<and> stateTables (ctx scenarioWorld) =
        [\<lparr>tbl_id = js ''table-1'', tbl_x = 100, tbl_y = 100, tbl_data = [numberRow 1 ''x'' 10]\<rparr>]"
  by (simp add: scenarioWorld_def emptyWorld_def firstClock_def machine_defs js_def
        intToString_def digits.simps Let_def row_defs)

lemma handleSave_dialog: "handleSave dialogRows = Ok (Some sentRows)"
  by (simp add: handleSave_def formatRow_def dialogRows_def sentRows_def row_defs orEmpty_def calc_defs)

text \<open>
  C5 at the scenario, with the rows that the dialog sends and a clock that advances by a
  millisecond while \<open>SAVE_STATE\<close> is handled. The machine goes to \<open>idle\<close>; the new
  table is appended at \<open>(A.x + 500, A.y)\<close> and its row \<open>y\<close> has the result 20; the
  new transition starts at \<open>A\<close>. But the id of the table is built from one reading of the
  clock and the \<open>toId\<close> of the transition from another: the transition ends at
  \<open>table-1001\<close>, which is the id of no table. With a clock that stands still the same
  event gives the transition the id of the new table.
\<close>

theorem C5_save_state_id_slip:
  "handleSave dialogRows = Ok (Some sentRows)
   \<and> machine scenarioWorld = DialogOpen
   \<and> selectedTableId (ctx scenarioWorld) = Some (tbl_id tableA)
   \<and> stateTables (ctx scenarioWorld) = [tableA]
   \<and> machine (step slipClock scenarioWorld (SAVE_STATE sentRows)) = Idle
   \<and> stateTables (ctx (step slipClock scenarioWorld (SAVE_STATE sentRows))) = [tableA, tableNew]
   \<and> (tbl_x tableNew, tbl_y tableNew) = (tbl_x tableA + 500, tbl_y tableA)
   \<and> tbl_data tableNew ! 1 = formulaRow 2 ''y'' TString ''x*2'' (Some (JNum (Fin 20)))
   \<and> stateTransitions (ctx (step slipClock scenarioWorld (SAVE_STATE sentRows)))
        = [\<lparr>tr_id = js ''transition-1000'', tr_fromId = tbl_id tableA,
            tr_toId = js ''table-1001'', tr_text = None\<rparr>]
   \<and> js ''table-1001'' \<noteq> tbl_id tableNew
   \<and> js ''table-1001'' \<noteq> tbl_id tableA
   \<and> stateTransitions (ctx (step noClock scenarioWorld (SAVE_STATE sentRows)))
        = [\<lparr>tr_id = js ''transition-1000'', tr_fromId = tbl_id tableA,
            tr_toId = tbl_id tableNew, tr_text = None\<rparr>]"
  using scenarioWorld_eval handleSave_dialog
  by (simp add: machine_defs Let_def scenario_defs js_def intToString_def digits.simps
        slipClock_def noClock_def tableNew_def sentRows_def orEmpty_def)


section \<open>The round trip through the store\<close>
















section \<open>Operator precedence\<close>

lemma digits_ne: "digits n \<noteq> []"
  by (subst digits.simps) simp

lemma digits_all: "list_all isDigit (digits n)"
proof (induction n rule: digits.induct)
  case (1 n)
  show ?case
  proof (cases "n < 10")
    case True
    then show ?thesis by (subst digits.simps) (simp add: isDigit_def)
  next
    case False
    have "n mod 10 < 10" by simp
    then have "isDigit (48 + n mod 10)" unfolding isDigit_def by linarith
    with False 1 show ?thesis by (subst digits.simps) simp
  qed
qed

lemma decimalValue_append:
  "decimalValue acc (xs @ ys) = decimalValue (decimalValue acc xs) ys"
  by (induction xs arbitrary: acc) auto

lemma digits_value: "decimalValue 0 (digits n) = int n"
proof (induction n rule: digits.induct)
  case (1 n)
  show ?case
  proof (cases "n < 10")
    case True
    then show ?thesis by (subst digits.simps) simp
  next
    case False
    with 1 have "decimalValue 0 (digits (n div 10)) = int (n div 10)" by simp
    with False show ?thesis
      by (subst digits.simps) (simp add: decimalValue_append zdiv_int zmod_int)
  qed
qed

lemma digits_hd: "1 < length (digits n) \<Longrightarrow> hd (digits n) \<noteq> 48"
proof (induction n rule: digits.induct)
  case (1 n)
  show ?case
  proof (cases "n < 10")
    case True
    with 1(2) show ?thesis by (subst (asm) digits.simps) simp
  next
    case False
    then have d: "digits n = digits (n div 10) @ [48 + n mod 10]"
      by (subst digits.simps) simp
    show ?thesis
    proof (cases "n div 10 < 10")
      case True
      from False have "0 < n div 10" by simp
      moreover from True have "digits (n div 10) = [48 + n div 10]"
        by (subst digits.simps) simp
      ultimately show ?thesis unfolding d by simp
    next
      case f: False
      then have "1 < length (digits (n div 10))"
        by (subst digits.simps) (simp add: Suc_lessI digits_ne)
      with 1(1) False have "hd (digits (n div 10)) \<noteq> 48" by simp
      with d show ?thesis by (simp add: digits_ne)
    qed
  qed
qed

lemma takeWhile_digits:
  "endsNumber rest \<Longrightarrow> takeWhile isDigit (digits n @ rest) = digits n"
  using digits_all [of n]
  by (cases rest) (auto simp: endsNumber_def list_all_iff takeWhile_append2 intro: takeWhile_eq_all_conv [THEN iffD2])

lemma dropWhile_digits:
  "endsNumber rest \<Longrightarrow> dropWhile isDigit (digits n @ rest) = rest"
  using digits_all [of n]
  by (cases rest) (auto simp: endsNumber_def list_all_iff dropWhile_append2)

lemma lexNumber_digits:
  assumes "endsNumber rest"
  shows "lexNumber (digits n @ rest) = (fin (int n), rest)"
proof -
  have dot: "startsWith rest [46] = False"
    using assms by (cases rest) (auto simp: endsNumber_def)
  have oct: "(1 < length (digits n) \<and> hd (digits n) = 48 \<and> list_all (\<lambda>c. c \<le> 55) (digits n)) = False"
    using digits_hd by blast
  show ?thesis
    unfolding lexNumber_def takeWhile_digits [OF assms] dropWhile_digits [OF assms] Let_def oct dot
    by (simp add: digits_value)
qed

lemma lex_digits:
  assumes "endsNumber rest"
  shows "lex prev lt (digits n @ rest) =
           consToken (lt, TNum (fin (int n))) (lex (Some (TNum (fin (int n)))) False rest)"
proof -
  obtain d ds where d: "digits n = d # ds"
    using digits_ne by (cases "digits n") auto
  with digits_all [of n] have "isDigit d" by simp
  then have "\<not> isLineTerminator d" "\<not> isWhiteSpace d"
    by (auto simp: char_defs)
  with \<open>isDigit d\<close> have "lex prev lt (d # ds @ rest) =
      (case lexNumber (d # ds @ rest) of (v, r) \<Rightarrow>
         consToken (lt, TNum v) (lex (Some (TNum v)) False r))"
    by simp
  with lexNumber_digits [OF assms, of n] show ?thesis
    by (simp add: d)
qed

lemma digits_allowed: "list_all isAllowed (digits n)"
  using digits_all [of n] by (simp add: list_all_iff isAllowed_def)

lemma shape_tokens:
  "shape True (primaryTokens f @ r) = shape False r"
  "shape True (multiplicativeTokens t @ r) = shape False r"
  "shape True (additiveTokens s @ r) = shape False r"
  by (induction f and t and s arbitrary: r and r and r) simp_all

lemma replaceAll_word:
  "name \<noteq> [] \<Longrightarrow> wordText w \<Longrightarrow>
     replaceAll name v False (w @ rest) = w @ replaceAll name v False rest"
  by (induction w) (simp_all add: wordText_def)

lemma matches_word:
  "wordText n \<Longrightarrow> n \<noteq> [] \<Longrightarrow> wordText w \<Longrightarrow> lookahead rest \<Longrightarrow>
     matchesHere n (w @ rest) = (w = n)"
proof (induction w arbitrary: n)
  case Nil
  then show ?case
    by (cases n; cases rest) (auto simp: matchesHere_def lookahead_def wordText_def)
next
  case (Cons a w)
  from Cons.prems obtain c n' where n: "n = c # n'" by (cases n) auto
  show ?case
  proof (cases "n' = []")
    case True
    with Cons.prems n show ?thesis
      by (cases w) (auto simp: matchesHere_def lookahead_def wordText_def)
  next
    case False
    with Cons.prems n have "matchesHere n' (w @ rest) = (w = n')"
      by (intro Cons.IH) (simp_all add: wordText_def)
    then show ?thesis
      by (auto simp: n matchesHere_def)
  qed
qed

lemma replaceAll_after_boundary:
  assumes "wordText n" "n \<noteq> []" "wordText w" "lookahead rest" "isBoundary c"
  shows "replaceAll n v False (c # w @ rest) = c # (if w = n then v else w) @ replaceAll n v False rest"
proof (cases "w = n")
  case True
  with matches_word [OF assms(1-4)] have "matchesHere n (w @ rest)" by simp
  with assms(2,5) True show ?thesis by simp
next
  case False
  with matches_word [OF assms(1-4)] have "\<not> matchesHere n (w @ rest)" by simp
  with assms(2,5) False replaceAll_word [OF assms(2,3)] show ?thesis by simp
qed

lemma replaceAll_at_start:
  assumes "wordText n" "n \<noteq> []" "wordText w" "lookahead rest"
  shows "replaceAll n v True (w @ rest) = (if w = n then v else w) @ replaceAll n v False rest"
proof (cases w)
  case Nil
  have m: "\<not> matchesHere n rest"
    using matches_word [OF assms(1,2) _ assms(4), of "[]"] assms(2) by (simp add: wordText_def)
  from Nil assms(2) m show ?thesis
    by (cases rest) auto
next
  case (Cons a w')
  with assms(3) have a: "\<not> isBoundary a" "wordText w'" by (simp_all add: wordText_def)
  show ?thesis
  proof (cases "w = n")
    case True
    with matches_word [OF assms(1-4)] have "matchesHere n (a # w' @ rest)" by (simp add: Cons)
    moreover from True Cons have "drop (length n) (a # w' @ rest) = rest"
      by auto
    ultimately have "replaceAll n v True (a # w' @ rest) = v @ replaceAll n v False rest"
      using assms(2) by simp
    moreover have "w @ rest = a # w' @ rest"
      by (simp add: Cons)
    ultimately show ?thesis
      using True by (simp only: if_True simp_thms)
  next
    case False
    with matches_word [OF assms(1-4)] have "\<not> matchesHere n (w @ rest)" by simp
    with assms(2) False Cons a replaceAll_word [OF assms(2) a(2)] show ?thesis by simp
  qed
qed

lemma digits_word: "wordText (digits a)"
  using digits_all [of a] by (auto simp: wordText_def list_all_iff char_defs)

lemma identifier_word: "isIdentifier x \<Longrightarrow> wordText x \<and> x \<noteq> []"
  by (simp add: isIdentifier_def wordText_def)

lemma digits_not_identifier: "isIdentifier n \<Longrightarrow> digits a \<noteq> n"
  using digits_all [of a] digits_ne [of a]
  by (cases "digits a") (auto simp: isIdentifier_def)

lemma lookahead_word: "wordText w \<Longrightarrow> w \<noteq> [] \<Longrightarrow> \<not> lookahead (w @ rest)"
  by (cases w) (auto simp: lookahead_def wordText_def)

lemma shape_sym: "shape e (Sym c # r) \<Longrightarrow> isBoundary c"
  by (auto simp: char_defs split: if_splits)

lemma lookahead_spell: "shape False (map snd toks) \<Longrightarrow> lookahead (spell toks)"
proof (cases toks)
  case Nil
  then show ?thesis by (simp add: spell_def lookahead_def)
next
  case (Cons p r)
  assume s: "shape False (map snd toks)"
  obtain k t where p: "p = (k, t)" by (cases p)
  show ?thesis
  proof (cases k)
    case 0
    from s Cons p obtain c where c: "t = Sym c" by (cases t) auto
    with s Cons p have "shape False (Sym c # map snd r)" by simp
    then have "isBoundary c" by (rule shape_sym)
    with c Cons p 0 show ?thesis by (simp add: spell_def lookahead_def)
  next
    case (Suc j)
    with Cons p show ?thesis by (simp add: spell_def lookahead_def char_defs)
  qed
qed

lemma replace_tokens:
  assumes n: "isIdentifier n"
  shows "shape e (map snd toks) \<Longrightarrow> namesOk (map snd toks) \<Longrightarrow>
         (lookahead (spell toks) \<longrightarrow>
            replaceAll n v False (spell toks) = spellBy (\<lambda>t. if t = Nam n then v else tokenText t) toks)
       \<and> (\<forall>c. isBoundary c \<longrightarrow>
            replaceAll n v False (c # spell toks)
              = c # spellBy (\<lambda>t. if t = Nam n then v else tokenText t) toks)"
proof (induction toks arbitrary: e)
  case Nil
  from n have nn: "n \<noteq> []" by (simp add: isIdentifier_def)
  have "\<not> matchesHere n []"
    using nn by (cases n) (auto simp: matchesHere_def)
  with nn show ?case by (simp add: spell_def)
next
  case (Cons p r)
  let ?f = "\<lambda>t. if t = Nam n then v else tokenText t"
  obtain k t where p: "p = (k, t)" by (cases p)
  from n have nw: "wordText n" "n \<noteq> []" by (simp_all add: identifier_word)
  from Cons.prems(2) have okr: "namesOk (map snd r)"
    by (auto simp: namesOk_def)
  have sp: "spell ((j, u) # r) = replicate j 32 @ tokenText u @ spell r" for j u
    by (simp add: spell_def)
  have b32: "isBoundary 32" by (simp add: char_defs)
  have zero: "(lookahead (spell ((0, t) # r)) \<longrightarrow>
            replaceAll n v False (spell ((0, t) # r)) = spellBy ?f ((0, t) # r))
       \<and> (\<forall>c. isBoundary c \<longrightarrow>
            replaceAll n v False (c # spell ((0, t) # r)) = c # spellBy ?f ((0, t) # r))"
  proof (cases "\<exists>d. t = Sym d")
    case True
    then obtain d where d: "t = Sym d" by blast
    with Cons.prems(1) p have "shape e (Sym d # map snd r)" by simp
    then have bd: "isBoundary d" by (rule shape_sym)
    from Cons.prems(1) p d obtain e' where "shape e' (map snd r)"
      by (auto split: if_splits)
    from Cons.IH [OF this okr] bd
    have ih: "replaceAll n v False (d # spell r) = d # spellBy ?f r" by blast
    have la: "lookahead (d # spell r)" using bd by (simp add: lookahead_def)
    have "replaceAll n v False (c # spell ((0, t) # r)) = c # spellBy ?f ((0, t) # r)"
      if c: "isBoundary c" for c
      using replaceAll_after_boundary [OF nw _ la c, of "[]" v] nw(2) ih d
      by (simp add: sp wordText_def del: replaceAll.simps)
    moreover have "replaceAll n v False (spell ((0, t) # r)) = spellBy ?f ((0, t) # r)"
      using ih d by (simp add: sp del: replaceAll.simps)
    ultimately show ?thesis by blast
  next
    case False
    then have tw: "wordText (tokenText t)" "tokenText t \<noteq> []" "(tokenText t = n) = (t = Nam n)"
      using Cons.prems(2) p n digits_not_identifier [OF n]
      by (cases t; auto simp: digits_word digits_ne namesOk_def identifier_word)+
    from False Cons.prems(1) p have sr: "shape False (map snd r)"
      by (cases t) auto
    then have la: "lookahead (spell r)" by (rule lookahead_spell)
    from Cons.IH [OF sr okr] la
    have ih: "replaceAll n v False (spell r) = spellBy ?f r" by blast
    have "replaceAll n v False (c # spell ((0, t) # r)) = c # spellBy ?f ((0, t) # r)"
      if c: "isBoundary c" for c
      using replaceAll_after_boundary [OF nw tw(1) la c, of v] ih tw(3)
      by (simp add: sp del: replaceAll.simps)
    moreover have "\<not> lookahead (spell ((0, t) # r))"
      using lookahead_word [OF tw(1,2)] by (simp add: sp)
    ultimately show ?thesis by blast
  qed
  have "(lookahead (spell ((j, t) # r)) \<longrightarrow>
            replaceAll n v False (spell ((j, t) # r)) = spellBy ?f ((j, t) # r))
       \<and> (\<forall>c. isBoundary c \<longrightarrow>
            replaceAll n v False (c # spell ((j, t) # r)) = c # spellBy ?f ((j, t) # r))" for j
  proof (induction j)
    case 0
    show ?case by (rule zero)
  next
    case (Suc j)
    from Suc b32 have ih: "replaceAll n v False (32 # spell ((j, t) # r)) = 32 # spellBy ?f ((j, t) # r)"
      by blast
    have e: "spell ((Suc j, t) # r) = 32 # spell ((j, t) # r)"
      "spellBy ?f ((Suc j, t) # r) = 32 # spellBy ?f ((j, t) # r)"
      by (simp_all add: spell_def)
    have la: "lookahead (32 # spell ((j, t) # r))"
      using b32 by (simp add: lookahead_def)
    have "replaceAll n v False (c # spell ((Suc j, t) # r)) = c # spellBy ?f ((Suc j, t) # r)"
      if c: "isBoundary c" for c
      using replaceAll_after_boundary [OF nw _ la c, of "[]" v] nw(2) ih
      by (simp add: e wordText_def del: replaceAll.simps)
    moreover have "replaceAll n v False (spell ((Suc j, t) # r)) = spellBy ?f ((Suc j, t) # r)"
      using ih by (simp add: e del: replaceAll.simps)
    ultimately show ?case by blast
  qed
  then show ?case by (simp add: p)
qed

lemma replace_start:
  assumes n: "isIdentifier n" and s: "shape True (map snd toks)" and ok: "namesOk (map snd toks)"
  shows "replaceAll n v True (spell toks) = spellBy (\<lambda>t. if t = Nam n then v else tokenText t) toks"
proof -
  let ?f = "\<lambda>t. if t = Nam n then v else tokenText t"
  from n have nw: "wordText n" "n \<noteq> []" by (simp_all add: identifier_word)
  have general: "replaceAll n v True (spell toks) = spellBy ?f toks" if la: "lookahead (spell toks)"
  proof -
    have "replaceAll n v True ([] @ spell toks) = (if [] = n then v else []) @ replaceAll n v False (spell toks)"
      using nw la by (intro replaceAll_at_start) (simp_all add: wordText_def)
    with nw(2) replace_tokens [OF n s ok, of v] la show ?thesis
      by (simp del: replaceAll.simps)
  qed
  show ?thesis
  proof (cases toks)
    case Nil
    then show ?thesis by (simp add: spell_def)
  next
    case (Cons p r)
    obtain k t where p: "p = (k, t)" by (cases p)
    show ?thesis
    proof (cases "k = 0 \<and> (\<forall>d. t \<noteq> Sym d)")
      case True
      then have tw: "wordText (tokenText t)" "tokenText t \<noteq> []" "(tokenText t = n) = (t = Nam n)"
        using ok Cons p n digits_not_identifier [OF n]
        by (cases t; auto simp: digits_word digits_ne namesOk_def identifier_word)+
      from True s Cons p have sr: "shape False (map snd r)"
        by (cases t) auto
      then have la: "lookahead (spell r)" by (rule lookahead_spell)
      from ok Cons have okr: "namesOk (map snd r)"
        by (auto simp: namesOk_def)
      from replace_tokens [OF n sr okr, of v] la
      have ih: "replaceAll n v False (spell r) = spellBy ?f r" by blast
      have "spell toks = tokenText t @ spell r"
        using True Cons p by (simp add: spell_def)
      with replaceAll_at_start [OF nw tw(1) la, of v] ih tw(3) True Cons p show ?thesis
        by (simp del: replaceAll.simps)
    next
      case False
      have "lookahead (spell toks)"
      proof (cases k)
        case 0
        with False obtain d where d: "t = Sym d" by blast
        with s Cons p have "shape True (Sym d # map snd r)" by simp
        then have "isBoundary d" by (rule shape_sym)
        with d 0 Cons p show ?thesis by (simp add: spell_def lookahead_def)
      next
        case (Suc j)
        with Cons p show ?thesis by (simp add: spell_def lookahead_def char_defs)
      qed
      then show ?thesis by (rule general)
    qed
  qed
qed

lemma spellBy_rename:
  "(Nam n \<in> set (map snd toks) \<longrightarrow> v = digits a) \<Longrightarrow>
     spellBy (\<lambda>t. if t = Nam n then v else tokenText t) toks = spell (respell (rename n a) toks)"
  by (induction toks) (auto simp: spell_def respell_def rename_def)

lemma shape_map:
  assumes "\<And>c. g (Sym c) = Sym c" and "\<And>t c. g t = Sym c \<Longrightarrow> t = Sym c"
  shows "shape e (map g ts) = shape e ts"
proof (induction ts arbitrary: e)
  case Nil
  show ?case by simp
next
  case (Cons t ts)
  show ?case
  proof (cases "\<exists>c. t = Sym c")
    case True
    then show ?thesis using assms(1) Cons by auto
  next
    case False
    then have "\<forall>c. g t \<noteq> Sym c" using assms(2) by blast
    with False Cons show ?thesis
      by (cases t; cases "g t") auto
  qed
qed

lemma shape_respell_rename: "shape e (map snd (respell (rename n a) toks)) = shape e (map snd toks)"
proof -
  have "map snd (respell (rename n a) toks) = map (rename n a) (map snd toks)"
    by (simp add: respell_def)
  moreover have "shape e (map (rename n a) ts) = shape e ts" for ts
    by (rule shape_map) (auto simp: rename_def split: if_splits)
  ultimately show ?thesis by (simp only:)
qed

lemma shape_respell_resolve: "shape e (map snd (respell (resolveToken env) toks)) = shape e (map snd toks)"
proof -
  have "map snd (respell (resolveToken env) toks) = map (resolveToken env) (map snd toks)"
    by (simp add: respell_def)
  moreover have "resolveToken env t = Sym c \<Longrightarrow> t = Sym c" for t c
    by (cases t) auto
  then have "shape e (map (resolveToken env) ts) = shape e ts" for ts
    by (intro shape_map) auto
  ultimately show ?thesis by (simp only:)
qed

lemma startsWith_self: "startsWith (n @ r) n"
  by (induction n) auto

lemma includes_self: "includes_str (n @ r) n"
  by (cases "n @ r") (auto simp: startsWith_self dest: sym intro: startsWith_self [of n r, simplified])

lemma includes_prefix: "includes_str s n \<Longrightarrow> includes_str (a @ s) n"
  by (induction a) auto

lemma includes_token:
  "Nam x \<in> set (map snd toks) \<Longrightarrow> includes_str (spell toks) x"
proof (induction toks)
  case Nil
  then show ?case by simp
next
  case (Cons p r)
  obtain k t where p: "p = (k, t)" by (cases p)
  show ?case
  proof (cases "t = Nam x")
    case True
    have "includes_str (replicate k 32 @ x @ spell r) x"
      by (intro includes_prefix includes_self)
    with True p show ?thesis by (simp add: spell_def)
  next
    case False
    with Cons p have "includes_str (spell r) x" by auto
    then have "includes_str (replicate k 32 @ tokenText t @ spell r) x"
      by (intro includes_prefix)
    with p show ?thesis by (simp add: spell_def)
  qed
qed

lemma identifier_literal: "isIdentifier n \<Longrightarrow> isLiteralName n"
  by (auto simp: isIdentifier_def isLiteralName_def list_all_iff list_ex_iff char_defs)

lemma respell_none:
  "\<forall>x. Nam x \<notin> set (map snd toks) \<Longrightarrow> respell (resolveToken env) toks = toks"
proof (induction toks)
  case Nil
  show ?case by (simp add: respell_def)
next
  case (Cons p r)
  then have "respell (resolveToken env) r = r" by simp
  moreover from Cons.prems have "resolveToken env (snd p) = snd p"
    by (cases "snd p") auto
  ultimately show ?case by (simp add: respell_def)
qed

lemma respell_resolve_rename:
  "a = nat (env n) \<Longrightarrow>
     respell (resolveToken env) (respell (rename n a) toks) = respell (resolveToken env) toks"
  by (induction toks) (auto simp: respell_def rename_def)

lemma substitute_tokens:
  assumes "distinct (map fst U)"
    and "\<forall>p \<in> set U. isIdentifier (fst p) \<and> numToString (snd p) \<noteq> Beyond"
    and "\<forall>x. Nam x \<in> set (map snd toks) \<longrightarrow>
           map_of U x = Some (Fin (env x)) \<and> 0 \<le> env x \<and> env x \<le> 9007199254740992"
    and "shape True (map snd toks)" and "namesOk (map snd toks)"
  shows "substitute U (Ok (spell toks)) = Ok (spell (respell (resolveToken env) toks))"
  using assms
proof (induction U arbitrary: toks)
  case Nil
  then have "\<forall>x. Nam x \<notin> set (map snd toks)" by auto
  then show ?case by (simp add: respell_none)
next
  case (Cons p U)
  obtain n v where p: "p = (n, v)" by (cases p)
  from Cons.prems(2) p have n: "isIdentifier n" and pv: "numToString v \<noteq> Beyond"
    by auto
  from pv numToString_no_throw obtain str where str: "numToString v = Ok str"
    by (cases "numToString v") auto
  let ?a = "nat (env n)"
  let ?toks = "respell (rename n ?a) toks"
  have dig: "Nam n \<in> set (map snd toks) \<longrightarrow> str = digits ?a"
  proof
    assume "Nam n \<in> set (map snd toks)"
    with Cons.prems(3) p have "v = Fin (env n)" "0 \<le> env n" "env n \<le> 9007199254740992"
      by auto
    with str show "str = digits ?a"
      by (simp add: intToString_def)
  qed
  have "replaceAll n str True (spell toks) = spell ?toks"
    using replace_start [OF n Cons.prems(4,5), of str] spellBy_rename [OF dig] by simp
  moreover have "n \<noteq> []" "isLiteralName n" "\<not> patternFails n"
    using n identifier_literal literal_compiles by (auto simp: isIdentifier_def)
  ultimately have step: "substitute (p # U) (Ok (spell toks)) = substitute U (Ok (spell ?toks))"
    using str by (simp add: p replaceName_def del: replaceAll.simps)
  have names: "Nam x \<in> set (map snd ?toks) \<Longrightarrow> Nam x \<in> set (map snd toks) \<and> x \<noteq> n" for x
    by (auto simp: respell_def rename_def split: if_splits)
  have "substitute U (Ok (spell ?toks)) = Ok (spell (respell (resolveToken env) ?toks))"
  proof (rule Cons.IH)
    show "distinct (map fst U)" using Cons.prems(1) by simp
    show "\<forall>p \<in> set U. isIdentifier (fst p) \<and> numToString (snd p) \<noteq> Beyond"
      using Cons.prems(2) by simp
    show "\<forall>x. Nam x \<in> set (map snd ?toks) \<longrightarrow>
           map_of U x = Some (Fin (env x)) \<and> 0 \<le> env x \<and> env x \<le> 9007199254740992"
    proof (intro allI impI)
      fix x
      assume "Nam x \<in> set (map snd ?toks)"
      then have x: "Nam x \<in> set (map snd toks)" "x \<noteq> n" using names by blast+
      with Cons.prems(3) p show "map_of U x = Some (Fin (env x)) \<and> 0 \<le> env x \<and> env x \<le> 9007199254740992"
        by (auto split: if_splits)
    qed
    show "shape True (map snd ?toks)"
      using Cons.prems(4) by (simp only: shape_respell_rename)
    show "namesOk (map snd ?toks)"
      using Cons.prems(5) names unfolding namesOk_def by blast
  qed
  with step show ?case
    by (simp only: respell_resolve_rename [OF refl])
qed

lemma lex_spaces: "lex prev lt (replicate k 32 @ s) = lex prev lt s"
  by (induction k) (simp_all add: char_defs)

lemma endsNumber_spell: "shape False (map snd toks) \<Longrightarrow> endsNumber (spell toks)"
proof (cases toks)
  case Nil
  then show ?thesis by (simp add: spell_def endsNumber_def)
next
  case (Cons p r)
  assume s: "shape False (map snd toks)"
  obtain k t where p: "p = (k, t)" by (cases p)
  show ?thesis
  proof (cases k)
    case 0
    from s Cons p obtain c where c: "t = Sym c" by (cases t) auto
    with s Cons p have "c = 41 \<or> c \<in> set [42, 43, 45, 47]" by (auto split: if_splits)
    with c Cons p 0 show ?thesis by (auto simp: spell_def endsNumber_def char_defs)
  next
    case (Suc j)
    with Cons p show ?thesis by (simp add: spell_def endsNumber_def char_defs)
  qed
qed

lemma opens_spell:
  assumes "shape True (map snd toks)" and "\<forall>x. Nam x \<notin> set (map snd toks)"
  shows "opens (spell toks)"
proof (cases toks)
  case Nil
  then show ?thesis by (simp add: spell_def opens_def)
next
  case (Cons p r)
  obtain k t where p: "p = (k, t)" by (cases p)
  show ?thesis
  proof (cases k)
    case 0
    show ?thesis
    proof (cases t)
      case (Lit n)
      obtain d ds where "digits n = d # ds" using digits_ne by (cases "digits n") auto
      moreover with digits_all [of n] have "isDigit d" by simp
      ultimately show ?thesis using Lit Cons p 0 by (simp add: spell_def opens_def)
    next
      case (Nam x)
      with assms(2) Cons p have False by auto
      then show ?thesis ..
    next
      case (Sym c)
      with assms(1) Cons p have "c = 40" by simp
      with Sym Cons p 0 show ?thesis by (simp add: spell_def opens_def)
    qed
  next
    case (Suc j)
    with Cons p show ?thesis by (simp add: spell_def opens_def)
  qed
qed

lemma opens_startsWith: "opens s \<Longrightarrow> c \<in> set [42, 43, 45, 47] \<Longrightarrow> startsWith s [c] = False"
  by (cases s) (auto simp: opens_def isDigit_def)

lemma lex_tokens:
  "shape e (map snd toks) \<Longrightarrow> \<forall>x. Nam x \<notin> set (map snd toks) \<Longrightarrow> (\<not> e \<longrightarrow> divisionAllowed prev) \<Longrightarrow>
     lex prev False (spell toks) = Ok (map (\<lambda>p. (False, jsToken env (snd p))) toks)"
proof (induction toks arbitrary: e prev)
  case Nil
  show ?case by (simp add: spell_def)
next
  case (Cons p r)
  obtain k t where p: "p = (k, t)" by (cases p)
  have sp: "spell ((k, u) # r) = replicate k 32 @ tokenText u @ spell r" for u
    by (simp add: spell_def)
  from Cons.prems(2) have nr: "\<forall>x. Nam x \<notin> set (map snd r)" by auto
  show ?case
  proof (cases t)
    case (Lit n)
    with Cons.prems(1) p have sr: "shape False (map snd r)" by simp
    have "lex (Some (TNum (fin (int n)))) False (spell r)
            = Ok (map (\<lambda>p. (False, jsToken env (snd p))) r)"
      using Cons.IH [OF sr nr] by (simp add: divisionAllowed_def)
    then show ?thesis
      by (simp add: p Lit sp lex_spaces lex_digits [OF endsNumber_spell [OF sr]] del: lex.simps)
  next
    case (Nam x)
    with Cons.prems(2) p have False by auto
    then show ?thesis ..
  next
    case (Sym c)
    show ?thesis
    proof (cases e)
      case True
      with Cons.prems(1) p Sym have c: "c = 40" and sr: "shape True (map snd r)" by simp_all
      have "lex (Some TLParen) False (spell r) = Ok (map (\<lambda>p. (False, jsToken env (snd p))) r)"
        using Cons.IH [OF sr nr] by simp
      then show ?thesis
        by (simp add: p Sym c sp lex_spaces char_defs)
    next
      case False
      show ?thesis
      proof (cases "c = 41")
        case True
        with Cons.prems(1) p Sym False have sr: "shape False (map snd r)" by simp
        have "lex (Some TRParen) False (spell r) = Ok (map (\<lambda>p. (False, jsToken env (snd p))) r)"
          using Cons.IH [OF sr nr] by (simp add: divisionAllowed_def)
        then show ?thesis
          by (simp add: p Sym True sp lex_spaces char_defs)
      next
        case nc: False
        with Cons.prems(1) p Sym False have c: "c \<in> set [42, 43, 45, 47]"
            and sr: "shape True (map snd r)"
          by simp_all
        have o: "startsWith (spell r) [d] = False" if "d \<in> set [42, 43, 45, 47]" for d
          using opens_startsWith [OF opens_spell [OF sr nr] that] .
        have ih: "lex q False (spell r) = Ok (map (\<lambda>p. (False, jsToken env (snd p))) r)" for q
          using Cons.IH [OF sr nr] by simp
        from Cons.prems(3) False have da: "divisionAllowed prev" by simp
        from c show ?thesis
          using ih da o [of 42] o [of 43] o [of 45] o [of 47]
          by (auto simp: p Sym sp lex_spaces char_defs)
      qed
    qed
  qed
qed

lemma parse_Unary_primary:
  "0 < m \<Longrightarrow> peek ts \<notin> {Some TPlus, Some TMinus, Some TInc, Some TDec} \<Longrightarrow>
     parse m Unary ts = bind (parse (m - 1) Primary ts) (\<lambda>p. parse (m - 1) (CallRest (fst p)) (snd p))"
  by simp

lemma parse_Primary_num: "0 < m \<Longrightarrow> parse m Primary ((l, TNum v) # ts) = Ok (Num v, ts)"
  by (simp add: peek_def)

lemma parse_Primary_paren:
  "0 < m \<Longrightarrow> parse m Primary ((l, TLParen) # ts) = bind (parse (m - 1) Additive ts) expectClose"
  by (simp add: peek_def)

lemma parse_CallRest_done: "0 < m \<Longrightarrow> afterPrimary ts \<Longrightarrow> parse m (CallRest e) ts = Ok (e, ts)"
  by (simp add: afterPrimary_def)

lemma parse_MulRest_star:
  "0 < m \<Longrightarrow> parse m (MulRest e) ((l, TStar) # ts) =
     bind (parse (m - 1) Unary ts) (\<lambda>p. parse (m - 1) (MulRest (Mul e (fst p))) (snd p))"
  by (simp add: peek_def)

lemma parse_MulRest_slash:
  "0 < m \<Longrightarrow> parse m (MulRest e) ((l, TSlash) # ts) =
     bind (parse (m - 1) Unary ts) (\<lambda>p. parse (m - 1) (MulRest (Div e (fst p))) (snd p))"
  by (simp add: peek_def)

lemma parse_MulRest_done:
  "0 < m \<Longrightarrow> afterMultiplicative ts \<Longrightarrow> parse m (MulRest e) ts = Ok (e, ts)"
  by (simp add: afterMultiplicative_def)

lemma parse_AddRest_plus:
  "0 < m \<Longrightarrow> parse m (AddRest e) ((l, TPlus) # ts) =
     bind (bind (parse (m - 1) Unary ts) (\<lambda>p. parse (m - 1) (MulRest (fst p)) (snd p)))
       (\<lambda>p. parse (m - 1) (AddRest (Add e (fst p))) (snd p))"
  by (simp add: peek_def)

lemma parse_AddRest_minus:
  "0 < m \<Longrightarrow> parse m (AddRest e) ((l, TMinus) # ts) =
     bind (bind (parse (m - 1) Unary ts) (\<lambda>p. parse (m - 1) (MulRest (fst p)) (snd p)))
       (\<lambda>p. parse (m - 1) (AddRest (Sub e (fst p))) (snd p))"
  by (simp add: peek_def)

lemma parse_AddRest_done:
  "0 < m \<Longrightarrow> afterAdditive ts \<Longrightarrow> parse m (AddRest e) ts = Ok (e, ts)"
  by (simp add: afterAdditive_def)

lemma parse_Additive:
  "0 < m \<Longrightarrow> parse m Additive ts =
     bind (bind (parse (m - 1) Unary ts) (\<lambda>p. parse (m - 1) (MulRest (fst p)) (snd p)))
       (\<lambda>p. parse (m - 1) (AddRest (fst p)) (snd p))"
  by simp


lemma parse_Additive_entry: "0 < m \<Longrightarrow> parse m Additive ts = parseAdditive (m - 1) ts"
  by (simp add: parseAdditive_def parseMultiplicative_def del: parse.simps add: parse_Additive)

lemma parse_AddRest_plus_entry:
  "0 < m \<Longrightarrow> parse m (AddRest e) ((l, TPlus) # ts) =
     bind (parseMultiplicative (m - 1) ts) (\<lambda>p. parse (m - 1) (AddRest (Add e (fst p))) (snd p))"
  by (simp add: parseMultiplicative_def del: parse.simps add: parse_AddRest_plus)

lemma parse_AddRest_minus_entry:
  "0 < m \<Longrightarrow> parse m (AddRest e) ((l, TMinus) # ts) =
     bind (parseMultiplicative (m - 1) ts) (\<lambda>p. parse (m - 1) (AddRest (Sub e (fst p))) (snd p))"
  by (simp add: parseMultiplicative_def del: parse.simps add: parse_AddRest_minus)

lemma parse_number:
  assumes "2 \<le> m" and "afterPrimary rest"
  shows "parse m Unary ((False, TNum v) # rest) = Ok (Num v, rest)"
proof -
  have "parse m Unary ((False, TNum v) # rest)
      = bind (parse (m - 1) Primary ((False, TNum v) # rest)) (\<lambda>p. parse (m - 1) (CallRest (fst p)) (snd p))"
    using assms(1) by (intro parse_Unary_primary) (simp_all add: peek_def)
  also have "\<dots> = parse (m - 1) (CallRest (Num v)) rest"
    using assms(1) by (simp add: parse_Primary_num del: parse.simps)
  also have "\<dots> = Ok (Num v, rest)"
    using assms by (intro parse_CallRest_done) simp_all
  finally show ?thesis .
qed

lemma after_cons [simp]:
  "afterPrimary ((l, TStar) # ts)" "afterPrimary ((l, TSlash) # ts)"
  "afterMultiplicative ((l, TPlus) # ts)" "afterMultiplicative ((l, TMinus) # ts)"
  "afterAdditive ((l, TRParen) # ts)"
  by (simp_all add: afterPrimary_def afterMultiplicative_def afterAdditive_def peek_def)

lemma parse_grammar:
  "primaryFuel f \<le> m \<Longrightarrow> afterPrimary rest \<Longrightarrow>
     parse m Unary (jsTokens env (primaryTokens f) @ rest) = Ok (primaryExpr env f, rest)"
  "afterPrimary rest \<Longrightarrow> (\<And>j. k \<le> j \<Longrightarrow> parse j (MulRest (multiplicativeExpr env t)) rest = r) \<Longrightarrow>
     k + multiplicativeFuel t \<le> m \<Longrightarrow>
     parseMultiplicative m (jsTokens env (multiplicativeTokens t) @ rest) = r"
  "afterMultiplicative rest \<Longrightarrow> (\<And>j. k' \<le> j \<Longrightarrow> parse j (AddRest (additiveExpr env s)) rest = r') \<Longrightarrow>
     k' + additiveFuel s \<le> m \<Longrightarrow>
     parseAdditive m (jsTokens env (additiveTokens s) @ rest) = r'"
proof (induction f and t and s arbitrary: m rest and m rest r k and m rest r' k')
  case (Literal n)
  then show ?case by (simp add: jsTokens_def parse_number del: parse.simps)
next
  case (Reference x)
  then show ?case by (simp add: jsTokens_def parse_number del: parse.simps)
next
  case (Group s)
  let ?X = "jsTokens env (additiveTokens s)"
  let ?rest = "(False, TRParen) # rest"
  from Group.prems have m: "additiveFuel s + 4 \<le> m" by simp
  have inner: "parseAdditive (m - 3) (?X @ ?rest) = Ok (additiveExpr env s, ?rest)"
  proof (rule Group.IH)
    show "afterMultiplicative ?rest" by (simp add: afterMultiplicative_def afterPrimary_def peek_def)
    show "parse j (AddRest (additiveExpr env s)) ?rest = Ok (additiveExpr env s, ?rest)" if "1 \<le> j" for j
      using that by (intro parse_AddRest_done) simp_all
    show "1 + additiveFuel s \<le> m - 3" using m by simp
  qed
  have "parse m Unary ((False, TLParen) # ?X @ ?rest)
      = bind (parse (m - 1) Primary ((False, TLParen) # ?X @ ?rest))
          (\<lambda>p. parse (m - 1) (CallRest (fst p)) (snd p))"
    using m by (intro parse_Unary_primary) (simp_all add: peek_def)
  also have "parse (m - 1) Primary ((False, TLParen) # ?X @ ?rest)
      = bind (parse (m - 1 - 1) Additive (?X @ ?rest)) expectClose"
    using m by (intro parse_Primary_paren) simp
  also have "parse (m - 1 - 1) Additive (?X @ ?rest) = parseAdditive (m - 1 - 1 - 1) (?X @ ?rest)"
    using m by (intro parse_Additive_entry) simp
  also have "m - 1 - 1 - 1 = m - 3" by simp
  finally have "parse m Unary ((False, TLParen) # ?X @ ?rest)
      = parse (m - 1) (CallRest (additiveExpr env s)) rest"
    by (simp add: inner expectClose_def peek_def del: parse.simps)
  also have "\<dots> = Ok (additiveExpr env s, rest)"
    using m Group.prems(2) by (intro parse_CallRest_done) simp_all
  finally show ?case
    by (simp add: jsTokens_def del: parse.simps)
next
  case (Single f)
  from Single.prems(3) have "primaryFuel f \<le> m" "k \<le> m" by simp_all
  with Single.IH [of m rest] Single.prems(1,2) show ?case
    by (simp add: parseMultiplicative_def del: parse.simps)
next
  case (Product t f)
  let ?rest = "(False, TStar) # jsTokens env (primaryTokens f) @ rest"
  have "parseMultiplicative m (jsTokens env (multiplicativeTokens t) @ ?rest) = r"
  proof (rule Product.IH(1))
    show "afterPrimary ?rest" by simp
    show "parse j (MulRest (multiplicativeExpr env t)) ?rest = r" if "k + primaryFuel f + 1 \<le> j" for j
    proof -
      from that have j: "0 < j" "primaryFuel f \<le> j - 1" "k \<le> j - 1" by simp_all
      have "parse j (MulRest (multiplicativeExpr env t)) ?rest
          = bind (parse (j - 1) Unary (jsTokens env (primaryTokens f) @ rest))
              (\<lambda>p. parse (j - 1) (MulRest (Mul (multiplicativeExpr env t) (fst p))) (snd p))"
        using j(1) by (rule parse_MulRest_star)
      also have "\<dots> = parse (j - 1) (MulRest (Mul (multiplicativeExpr env t) (primaryExpr env f))) rest"
        using Product.IH(2) [OF j(2) Product.prems(1)] by (simp del: parse.simps)
      also have "\<dots> = r"
        using Product.prems(2) [OF j(3)] by simp
      finally show ?thesis .
    qed
    show "k + primaryFuel f + 1 + multiplicativeFuel t \<le> m"
      using Product.prems(3) by simp
  qed
  then show ?case by (simp add: jsTokens_def del: parse.simps)
next
  case (Quotient t f)
  let ?rest = "(False, TSlash) # jsTokens env (primaryTokens f) @ rest"
  have "parseMultiplicative m (jsTokens env (multiplicativeTokens t) @ ?rest) = r"
  proof (rule Quotient.IH(1))
    show "afterPrimary ?rest" by simp
    show "parse j (MulRest (multiplicativeExpr env t)) ?rest = r" if "k + primaryFuel f + 1 \<le> j" for j
    proof -
      from that have j: "0 < j" "primaryFuel f \<le> j - 1" "k \<le> j - 1" by simp_all
      have "parse j (MulRest (multiplicativeExpr env t)) ?rest
          = bind (parse (j - 1) Unary (jsTokens env (primaryTokens f) @ rest))
              (\<lambda>p. parse (j - 1) (MulRest (Div (multiplicativeExpr env t) (fst p))) (snd p))"
        using j(1) by (rule parse_MulRest_slash)
      also have "\<dots> = parse (j - 1) (MulRest (Div (multiplicativeExpr env t) (primaryExpr env f))) rest"
        using Quotient.IH(2) [OF j(2) Quotient.prems(1)] by (simp del: parse.simps)
      also have "\<dots> = r"
        using Quotient.prems(2) [OF j(3)] by simp
      finally show ?thesis .
    qed
    show "k + primaryFuel f + 1 + multiplicativeFuel t \<le> m"
      using Quotient.prems(3) by simp
  qed
  then show ?case by (simp add: jsTokens_def del: parse.simps)
next
  case (Only t)
  from Only.prems(1) have ap: "afterPrimary rest" by (simp add: afterMultiplicative_def)
  have "parseMultiplicative m (jsTokens env (multiplicativeTokens t) @ rest)
      = Ok (multiplicativeExpr env t, rest)"
  proof (rule Only.IH)
    show "afterPrimary rest" by (rule ap)
    show "parse j (MulRest (multiplicativeExpr env t)) rest = Ok (multiplicativeExpr env t, rest)"
      if "1 \<le> j" for j
      using that Only.prems(1) by (intro parse_MulRest_done) simp_all
    show "1 + multiplicativeFuel t \<le> m" using Only.prems(3) by simp
  qed
  moreover from Only.prems(3) have "k' \<le> m" by simp
  ultimately show ?case
    using Only.prems(2) by (simp add: parseAdditive_def del: parse.simps)
next
  case (Total s t)
  let ?rest = "(False, TPlus) # jsTokens env (multiplicativeTokens t) @ rest"
  from Total.prems(1) have ap: "afterPrimary rest" by (simp add: afterMultiplicative_def)
  have "parseAdditive m (jsTokens env (additiveTokens s) @ ?rest) = r'"
  proof (rule Total.IH(1))
    show "afterMultiplicative ?rest" by simp
    show "parse j (AddRest (additiveExpr env s)) ?rest = r'" if "k' + multiplicativeFuel t + 2 \<le> j" for j
    proof -
      from that have j: "0 < j" "1 + multiplicativeFuel t \<le> j - 1" "k' \<le> j - 1" by simp_all
      have "parseMultiplicative (j - 1) (jsTokens env (multiplicativeTokens t) @ rest)
          = Ok (multiplicativeExpr env t, rest)"
      proof (rule Total.IH(2))
        show "afterPrimary rest" by (rule ap)
        show "parse i (MulRest (multiplicativeExpr env t)) rest = Ok (multiplicativeExpr env t, rest)"
          if "1 \<le> i" for i
          using that Total.prems(1) by (intro parse_MulRest_done) simp_all
        show "1 + multiplicativeFuel t \<le> j - 1" by (rule j(2))
      qed
      then have "parse j (AddRest (additiveExpr env s)) ?rest
          = parse (j - 1) (AddRest (Add (additiveExpr env s) (multiplicativeExpr env t))) rest"
        using j(1) by (simp add: parse_AddRest_plus_entry del: parse.simps)
      also have "\<dots> = r'"
        using Total.prems(2) [OF j(3)] by simp
      finally show ?thesis .
    qed
    show "k' + multiplicativeFuel t + 2 + additiveFuel s \<le> m"
      using Total.prems(3) by simp
  qed
  then show ?case by (simp add: jsTokens_def del: parse.simps)
next
  case (Difference s t)
  let ?rest = "(False, TMinus) # jsTokens env (multiplicativeTokens t) @ rest"
  from Difference.prems(1) have ap: "afterPrimary rest" by (simp add: afterMultiplicative_def)
  have "parseAdditive m (jsTokens env (additiveTokens s) @ ?rest) = r'"
  proof (rule Difference.IH(1))
    show "afterMultiplicative ?rest" by simp
    show "parse j (AddRest (additiveExpr env s)) ?rest = r'" if "k' + multiplicativeFuel t + 2 \<le> j" for j
    proof -
      from that have j: "0 < j" "1 + multiplicativeFuel t \<le> j - 1" "k' \<le> j - 1" by simp_all
      have "parseMultiplicative (j - 1) (jsTokens env (multiplicativeTokens t) @ rest)
          = Ok (multiplicativeExpr env t, rest)"
      proof (rule Difference.IH(2))
        show "afterPrimary rest" by (rule ap)
        show "parse i (MulRest (multiplicativeExpr env t)) rest = Ok (multiplicativeExpr env t, rest)"
          if "1 \<le> i" for i
          using that Difference.prems(1) by (intro parse_MulRest_done) simp_all
        show "1 + multiplicativeFuel t \<le> j - 1" by (rule j(2))
      qed
      then have "parse j (AddRest (additiveExpr env s)) ?rest
          = parse (j - 1) (AddRest (Sub (additiveExpr env s) (multiplicativeExpr env t))) rest"
        using j(1) by (simp add: parse_AddRest_minus_entry del: parse.simps)
      also have "\<dots> = r'"
        using Difference.prems(2) [OF j(3)] by simp
      finally show ?thesis .
    qed
    show "k' + multiplicativeFuel t + 2 + additiveFuel s \<le> m"
      using Difference.prems(3) by simp
  qed
  then show ?case by (simp add: jsTokens_def del: parse.simps)
qed





lemma fuel_bound:
  "primaryFuel f + 2 \<le> 4 * length (primaryTokens f)"
  "multiplicativeFuel t + 2 \<le> 4 * length (multiplicativeTokens t)"
  "additiveFuel s + 1 \<le> 4 * length (additiveTokens s)"
  by (induction f and t and s) simp_all

lemma valid_spell:
  "shape e (map snd toks) \<Longrightarrow> \<forall>x. Nam x \<notin> set (map snd toks) \<Longrightarrow> list_all isAllowed (spell toks)"
proof (induction toks arbitrary: e)
  case Nil
  show ?case by (simp add: spell_def)
next
  case (Cons p r)
  obtain k t where p: "p = (k, t)" by (cases p)
  from Cons.prems(1) p obtain e' where "shape e' (map snd r)"
    by (cases t) (auto split: if_splits)
  with Cons.IH Cons.prems(2) have r: "list_all isAllowed (spell r)" by auto
  have s: "list_all isAllowed (replicate k 32)"
    by (simp add: list_all_iff char_defs)
  have "list_all isAllowed (tokenText t)"
  proof (cases t)
    case (Lit n)
    then show ?thesis by (simp add: digits_allowed)
  next
    case (Nam x)
    with Cons.prems(2) p have False by auto
    then show ?thesis ..
  next
    case (Sym c)
    with Cons.prems(1) p have "c \<in> set [40, 41, 42, 43, 45, 47]"
      by (auto split: if_splits)
    with Sym show ?thesis by (auto simp: isAllowed_def)
  qed
  with r s show ?case by (simp add: p spell_def)
qed


lemma spell_ne: "toks \<noteq> [] \<Longrightarrow> \<forall>x. Nam x \<notin> set (map snd toks) \<Longrightarrow> shape e (map snd toks) \<Longrightarrow> spell toks \<noteq> []"
proof (cases toks)
  case Nil
  assume "toks \<noteq> []"
  with Nil show ?thesis by simp
next
  case (Cons p r)
  assume n: "\<forall>x. Nam x \<notin> set (map snd toks)"
  obtain k t where p: "p = (k, t)" by (cases p)
  have "tokenText t \<noteq> []"
  proof (cases t)
    case (Nam x)
    with n Cons p have False by auto
    then show ?thesis ..
  qed (simp_all add: digits_ne)
  with Cons p show ?thesis by (simp add: spell_def)
qed

lemma jsToken_resolve:
  "(\<forall>x. t = Nam x \<longrightarrow> 0 \<le> env x) \<Longrightarrow> jsToken env (resolveToken env t) = jsToken env t"
  by (cases t) auto





section \<open>Failures of calculateFormula\<close>

lemma evaluate_unclosed:
  assumes toks: "map snd spaced = additiveTokens s"
    and pos: "\<forall>x. Nam x \<in> set (additiveTokens s) \<longrightarrow> 0 \<le> env x"
  shows "validExpression (spell (respell (resolveToken env) ((0, Sym 40) # spaced)))"
    and "evaluate (spell (respell (resolveToken env) ((0, Sym 40) # spaced))) = Throw SyntaxError"
proof -
  let ?spaced = "(0, Sym 40) # spaced"
  let ?toks = "respell (resolveToken env) ?spaced"
  let ?ts = "jsTokens env (additiveTokens s)"
  let ?e = "additiveExpr env s"
  have sh0: "shape True (map snd ?spaced)"
    using shape_tokens(3) [of s "[]"] by (simp add: toks)
  then have sh: "shape True (map snd ?toks)"
    by (simp only: shape_respell_resolve)
  have none: "\<forall>x. Nam x \<notin> set (map snd ?toks)"
  proof (intro allI notI)
    fix x
    assume "Nam x \<in> set (map snd ?toks)"
    then obtain t where "resolveToken env t = Nam x"
      by (auto simp: respell_def)
    then show False by (cases t) auto
  qed
  have ne: "?toks \<noteq> []"
    by (simp add: respell_def)
  show "validExpression (spell ?toks)"
    unfolding validExpression_def
    using valid_spell [OF sh none] spell_ne [OF ne none sh] by simp
  have "map (\<lambda>p. (False, jsToken env (snd p))) ?toks
      = (False, TLParen) # map (\<lambda>t. (False, jsToken env (resolveToken env t))) (map snd spaced)"
    by (simp add: respell_def comp_def)
  also have "map (\<lambda>t. (False, jsToken env (resolveToken env t))) (map snd spaced) = ?ts"
  proof -
    have "jsToken env (resolveToken env t) = jsToken env t" if "t \<in> set (additiveTokens s)" for t
    proof (cases t)
      case (Nam x)
      with that pos have "0 \<le> env x" by auto
      with Nam show ?thesis by simp
    qed simp_all
    then show ?thesis
      unfolding toks by (simp add: jsTokens_def)
  qed
  finally have lexed: "lex None False (spell ?toks) = Ok ((False, TLParen) # ?ts)"
    using lex_tokens [OF sh none, of None env] by simp
  let ?all = "(False, TLParen) # ?ts"
  have line: "sameLine ?all"
    by (simp add: sameLine_def)
  have len: "length ?ts = length (additiveTokens s)"
    by (simp add: jsTokens_def)
  obtain j where j: "parseFuel ?all = Suc (Suc (Suc (Suc j)))" "1 + additiveFuel s \<le> j"
  proof
    show "parseFuel ?all = Suc (Suc (Suc (Suc (parseFuel ?all - 4))))"
      by (simp add: parseFuel_def)
    show "1 + additiveFuel s \<le> parseFuel ?all - 4"
      using fuel_bound(3) [of s] by (simp add: parseFuel_def len)
  qed
  have inner: "parseAdditive j (?ts @ []) = Ok (?e, [])"
  proof (rule parse_grammar(3))
    show "afterMultiplicative []"
      by (simp add: afterMultiplicative_def afterPrimary_def peek_def)
    show "parse i (AddRest ?e) [] = Ok (?e, [])" if "1 \<le> i" for i
      using that
      by (intro parse_AddRest_done) (simp_all add: afterAdditive_def afterMultiplicative_def afterPrimary_def peek_def)
    show "1 + additiveFuel s \<le> j" by (rule j(2))
  qed
  have add: "parse (Suc j) Additive ?ts = Ok (?e, [])"
    using parse_Additive_entry [of "Suc j" ?ts] inner by simp
  have prim: "parse (Suc (Suc j)) Primary ?all = Throw SyntaxError"
    using parse_Primary_paren [of "Suc (Suc j)" False ?ts] add
    by (simp add: expectClose_def peek_def del: parse.simps)
  have un: "parse (Suc (Suc (Suc j))) Unary ?all = Throw SyntaxError"
    using parse_Unary_primary [of "Suc (Suc (Suc j))" ?all] prim
    by (simp add: peek_def del: parse.simps)
  have parsed: "parse (parseFuel ?all) Additive ?all = Throw SyntaxError"
    unfolding j(1)
    using parse_Additive_entry [of "Suc (Suc (Suc (Suc j)))" ?all] un
    by (simp add: parseAdditive_def parseMultiplicative_def del: parse.simps)
  show "evaluate (spell ?toks) = Throw SyntaxError"
    unfolding evaluate_def lexed
    using line parsed by (simp del: parse.simps)
qed

lemma unclosed_zero:
  assumes spelled: "map snd spaced = additiveTokens s" "trim formula = 40 # spell spaced"
    and known: "\<forall>x. Nam x \<in> set (additiveTokens s) \<longrightarrow>
        isIdentifier x \<and> 0 \<le> env x \<and> env x \<le> 9007199254740992
        \<and> (\<exists>r. find (\<lambda>r. row_name r = x) (allData data tables) = Some r \<and> rowNumber r = Fin (env x))"
    and found: "\<forall>r \<in> set (allData data tables).
        row_name r \<noteq> [] \<and> includes_str (trim formula) (row_name r)
          \<longrightarrow> isIdentifier (row_name r) \<and> numToString (rowNumber r) \<noteq> Beyond"
  shows "calculateFormula formula data tables = Fin 0"
proof -
  let ?U = "unresolved (trim formula) data tables"
  let ?spaced = "(0, Sym 40) # spaced"
  let ?toks = "respell (resolveToken env) ?spaced"
  have tx: "trim formula = spell ?spaced"
    by (simp add: spelled(2) spell_def)
  have pos: "\<forall>x. Nam x \<in> set (additiveTokens s) \<longrightarrow> 0 \<le> env x"
    using known by blast
  have u2: "\<forall>p \<in> set ?U. isIdentifier (fst p) \<and> numToString (snd p) \<noteq> Beyond"
  proof
    fix p
    assume p: "p \<in> set ?U"
    obtain n w where nw: "p = (n, w)" by (cases p)
    from unresolved_entry [OF p [unfolded nw]] found
    show "isIdentifier (fst p) \<and> numToString (snd p) \<noteq> Beyond"
      unfolding nw by auto
  qed
  have u3: "\<forall>x. Nam x \<in> set (map snd ?spaced) \<longrightarrow>
      map_of ?U x = Some (Fin (env x)) \<and> 0 \<le> env x \<and> env x \<le> 9007199254740992"
  proof (intro allI impI)
    fix x
    assume x: "Nam x \<in> set (map snd ?spaced)"
    then have inc: "includes_str (trim formula) x"
      unfolding tx by (rule includes_token)
    from x spelled(1) have xs: "Nam x \<in> set (additiveTokens s)" by simp
    with known obtain r where r: "isIdentifier x" "0 \<le> env x" "env x \<le> 9007199254740992"
        "find (\<lambda>r. row_name r = x) (allData data tables) = Some r" "rowNumber r = Fin (env x)"
      by blast
    from r(1) have "x \<noteq> []" by (simp add: isIdentifier_def)
    with inc r(4,5) have "map_of ?U x = Some (Fin (env x))"
      by (simp add: unresolved_lookup)
    with r(2,3) show "map_of ?U x = Some (Fin (env x)) \<and> 0 \<le> env x \<and> env x \<le> 9007199254740992"
      by simp
  qed
  have sh: "shape True (map snd ?spaced)"
    using shape_tokens(3) [of s "[]"] by (simp add: spelled(1))
  have ok: "namesOk (map snd ?spaced)"
    using known by (simp add: namesOk_def spelled(1))
  have sub: "substituted formula data tables = Ok (spell ?toks)"
    unfolding substituted_def tx
    using substitute_tokens [OF unresolved_distinct u2 [unfolded tx] u3 [unfolded tx] sh ok] .
  from sub evaluate_unclosed [OF spelled(1) pos] show ?thesis
    by (auto simp: calculateFormula_eq)
qed

text \<open>
  C3. The call of calculateFormula never ends in an exception: whatever is thrown between
  \<open>try\<close> and \<open>catch\<close> (by \<open>new RegExp\<close> on a name that is no pattern, by
  \<open>new Function\<close> on a text that is no expression, by the call of the function built)
  is caught, and the call returns 0. It returns 0
  \<^item> when the formula holds a letter and no name of the pool occurs in it;
  \<^item> when a name of the pool that occurs in the formula does not compile as a pattern;
  \<^item> when the formula holds a character \<open>c\<close> outside \<open>[0-9\s\+\-\*\/\(\)\.]\<close> that
    is part of no name found in it (the names found being literal text, with values that
    the model prints): the character survives the substitution;
  \<^item> when the formula is an arithmetic formula over known names after a parenthesis
    that is never closed: its evaluation throws a SyntaxError;
  \<^item> whenever the substituted expression holds a character outside that class, or is
    empty;
  \<^item> whenever the evaluation of the substituted expression throws.
\<close>

theorem C3_failures_return_zero:
  "calculateFormulaCall formula data tables \<noteq> Throw err
   \<and> (tryBlock formula data tables = Throw err \<longrightarrow> calculateFormula formula data tables = Fin 0)
   \<and> ((\<forall>r \<in> set (allData data tables).
          row_name r \<noteq> [] \<longrightarrow> \<not> includes_str (trim formula) (row_name r))
        \<and> list_ex isLetter (trim formula)
      \<longrightarrow> calculateFormula formula data tables = Fin 0)
   \<and> ((\<exists>r \<in> set (allData data tables).
          includes_str (trim formula) (row_name r) \<and> patternFails (row_name r))
      \<longrightarrow> calculateFormula formula data tables = Fin 0)
   \<and> ((\<forall>r \<in> set (allData data tables).
          row_name r \<noteq> [] \<and> includes_str (trim formula) (row_name r)
            \<longrightarrow> isLiteralName (row_name r) \<and> numToString (rowNumber r) \<noteq> Beyond \<and> c \<notin> set (row_name r))
        \<and> c \<in> set (trim formula) \<and> \<not> isAllowed c
      \<longrightarrow> calculateFormula formula data tables = Fin 0)
   \<and> (map snd spaced = additiveTokens s \<and> trim formula = 40 # spell spaced
        \<and> (\<forall>x. Nam x \<in> set (additiveTokens s) \<longrightarrow>
              isIdentifier x \<and> 0 \<le> env x \<and> env x \<le> 9007199254740992
              \<and> (\<exists>r. find (\<lambda>r. row_name r = x) (allData data tables) = Some r
                    \<and> rowNumber r = Fin (env x)))
        \<and> (\<forall>r \<in> set (allData data tables).
              row_name r \<noteq> [] \<and> includes_str (trim formula) (row_name r)
                \<longrightarrow> isIdentifier (row_name r) \<and> numToString (rowNumber r) \<noteq> Beyond)
      \<longrightarrow> calculateFormula formula data tables = Fin 0)
   \<and> (substituted formula data tables = Ok expression \<and> \<not> validExpression expression
      \<longrightarrow> calculateFormula formula data tables = Fin 0)
   \<and> (substituted formula data tables = Ok expression \<and> evaluate expression = Throw err
      \<longrightarrow> calculateFormula formula data tables = Fin 0)"
proof (intro conjI impI)
  show "calculateFormulaCall formula data tables \<noteq> Throw err"
    by (cases "tryBlock formula data tables") (simp_all add: calculateFormulaCall_def)
  show "calculateFormula formula data tables = Fin 0" if "tryBlock formula data tables = Throw err"
    using that by (simp add: calculateFormula_def calculateFormulaCall_def)
  show "calculateFormula formula data tables = Fin 0"
    if "(\<forall>r \<in> set (allData data tables).
          row_name r \<noteq> [] \<longrightarrow> \<not> includes_str (trim formula) (row_name r))
        \<and> list_ex isLetter (trim formula)"
    using that unfolding unresolved_empty_iff [symmetric]
    by (simp add: calculateFormula_eq)
  show "calculateFormula formula data tables = Fin 0"
    if "\<exists>r \<in> set (allData data tables).
          includes_str (trim formula) (row_name r) \<and> patternFails (row_name r)"
  proof -
    from that obtain r where r: "r \<in> set (allData data tables)"
        "includes_str (trim formula) (row_name r)" "patternFails (row_name r)"
      by blast
    from r(3) have ne: "row_name r \<noteq> []"
      by (auto simp: patternFails_def)
    with r(1,2) have "row_name r \<in> fst ` set (unresolved (trim formula) data tables)"
      unfolding unresolved_keys by blast
    then obtain p where "p \<in> set (unresolved (trim formula) data tables)" "fst p = row_name r"
      by auto
    with r(3) have "\<exists>p \<in> set (unresolved (trim formula) data tables). patternFails (fst p)"
      by (intro bexI [of _ p]) simp_all
    then have "substituted formula data tables = Throw SyntaxError"
      unfolding substituted_def by (rule substitute_throws)
    then show ?thesis
      by (simp add: calculateFormula_eq)
  qed
  show "calculateFormula formula data tables = Fin 0"
    if h: "(\<forall>r \<in> set (allData data tables).
          row_name r \<noteq> [] \<and> includes_str (trim formula) (row_name r)
            \<longrightarrow> isLiteralName (row_name r) \<and> numToString (rowNumber r) \<noteq> Beyond \<and> c \<notin> set (row_name r))
        \<and> c \<in> set (trim formula) \<and> \<not> isAllowed c"
  proof -
    have "\<forall>p \<in> set (unresolved (trim formula) data tables).
        isLiteralName (fst p) \<and> fst p \<noteq> [] \<and> numToString (snd p) \<noteq> Beyond \<and> c \<notin> set (fst p)"
    proof
      fix p
      assume p: "p \<in> set (unresolved (trim formula) data tables)"
      obtain n v where nv: "p = (n, v)" by (cases p)
      from unresolved_entry [OF p [unfolded nv]] h show "isLiteralName (fst p) \<and> fst p \<noteq> []
          \<and> numToString (snd p) \<noteq> Beyond \<and> c \<notin> set (fst p)"
        unfolding nv by auto
    qed
    with h obtain e' where e': "substituted formula data tables = Ok e'" "c \<in> set e'"
      unfolding substituted_def using substitute_keeps by blast
    from e'(2) h have "\<not> validExpression e'"
      by (auto simp: validExpression_def list_all_iff)
    with e'(1) show ?thesis
      by (simp add: calculateFormula_eq)
  qed
  show "calculateFormula formula data tables = Fin 0"
    if "map snd spaced = additiveTokens s \<and> trim formula = 40 # spell spaced
        \<and> (\<forall>x. Nam x \<in> set (additiveTokens s) \<longrightarrow>
              isIdentifier x \<and> 0 \<le> env x \<and> env x \<le> 9007199254740992
              \<and> (\<exists>r. find (\<lambda>r. row_name r = x) (allData data tables) = Some r
                    \<and> rowNumber r = Fin (env x)))
        \<and> (\<forall>r \<in> set (allData data tables).
              row_name r \<noteq> [] \<and> includes_str (trim formula) (row_name r)
                \<longrightarrow> isIdentifier (row_name r) \<and> numToString (rowNumber r) \<noteq> Beyond)"
    using that unclosed_zero [of spaced s formula env data tables] by blast
  show "calculateFormula formula data tables = Fin 0"
    if "substituted formula data tables = Ok expression \<and> \<not> validExpression expression"
    using that by (auto simp: calculateFormula_eq)
  show "calculateFormula formula data tables = Fin 0"
    if "substituted formula data tables = Ok expression \<and> evaluate expression = Throw err"
    using that by (auto simp: calculateFormula_eq)
qed

text \<open>
  C3 at \<open>unknownVar + 1\<close> with no row; at \<open>(1)\<close> with a row named \<open>(\<close>, whose
  pattern does not compile; at \<open>a; b\<close> with the rows \<open>a = 1\<close> and \<open>b = 2\<close>, where
  the semicolon survives; at \<open>(A + 1\<close> with the row \<open>A = 2\<close>, where the parenthesis
  is not closed; at \<open>(1\<close>, whose evaluation throws a SyntaxError; and at \<open>1(2)\<close>,
  whose evaluation throws a TypeError (a number is called).
\<close>

theorem C3_witness:
  "allData [] None = [] \<and> list_ex isLetter (trim (js ''unknownVar + 1''))
   \<and> calculateFormula (js ''unknownVar + 1'') [] None = Fin 0
   \<and> patternFails (js ''('') \<and> tryBlock (js ''(1)'') [numberRow 1 ''('' 3] None = Throw SyntaxError
   \<and> calculateFormulaCall (js ''(1)'') [numberRow 1 ''('' 3] None = Ok (Fin 0)
   \<and> calculateFormula (js ''(1)'') [numberRow 1 ''('' 3] None = Fin 0
   \<and> substituted (js ''a; b'') [numberRow 1 ''a'' 1, numberRow 2 ''b'' 2] None = Ok (js ''1; 2'')
   \<and> \<not> validExpression (js ''1; 2'')
   \<and> calculateFormula (js ''a; b'') [numberRow 1 ''a'' 1, numberRow 2 ''b'' 2] None = Fin 0
   \<and> trim (js ''(A + 1'') = 40 # spell [(0, Nam (js ''A'')), (1, Sym 43), (1, Lit 1)]
   \<and> tryBlock (js ''(A + 1'') [numberRow 1 ''A'' 2] None = Throw SyntaxError
   \<and> calculateFormula (js ''(A + 1'') [numberRow 1 ''A'' 2] None = Fin 0
   \<and> substituted (js ''(1'') [] None = Ok (js ''(1'') \<and> evaluate (js ''(1'') = Throw SyntaxError
   \<and> calculateFormula (js ''(1'') [] None = Fin 0
   \<and> substituted (js ''1(2)'') [] None = Ok (js ''1(2)'') \<and> evaluate (js ''1(2)'') = Throw TypeError
   \<and> calculateFormula (js ''1(2)'') [] None = Fin 0"
proof -
  let ?ab = "[numberRow 1 ''a'' 1, numberRow 2 ''b'' 2]"
  have a: "\<forall>r \<in> set (allData [] None).
      row_name r \<noteq> [] \<longrightarrow> \<not> includes_str (trim (js ''unknownVar + 1'')) (row_name r)"
    by (simp add: allData_def)
  have b: "list_ex isLetter (trim (js ''unknownVar + 1''))"
    by (simp add: calc_defs)
  from C3_failures_return_zero [where formula = "js ''unknownVar + 1''" and data = "[]" and tables = None] a b
  have 1: "calculateFormula (js ''unknownVar + 1'') [] None = Fin 0" by blast
  have pf: "patternFails (js ''('')"
    by (simp add: patternFails_def js_def)
  have tb: "tryBlock (js ''(1)'') [numberRow 1 ''('' 3] None = Throw SyntaxError"
    by (simp add: calc_defs row_defs)
  have call: "calculateFormulaCall (js ''(1)'') [numberRow 1 ''('' 3] None = Ok (Fin 0)"
    by (simp add: calc_defs row_defs)
  have p: "\<exists>r \<in> set (allData [numberRow 1 ''('' 3] None).
      includes_str (trim (js ''(1)'')) (row_name r) \<and> patternFails (row_name r)"
    by (simp add: allData_def row_defs trim_def js_def char_defs patternFails_def)
  from C3_failures_return_zero [where formula = "js ''(1)''" and data = "[numberRow 1 ''('' 3]"
      and tables = None] p
  have 2: "calculateFormula (js ''(1)'') [numberRow 1 ''('' 3] None = Fin 0" by blast
  have s: "substituted (js ''a; b'') ?ab None = Ok (js ''1; 2'')" "\<not> validExpression (js ''1; 2'')"
    by (simp_all add: calc_defs row_defs)
  have k: "(\<forall>r \<in> set (allData ?ab None).
          row_name r \<noteq> [] \<and> includes_str (trim (js ''a; b'')) (row_name r)
            \<longrightarrow> isLiteralName (row_name r) \<and> numToString (rowNumber r) \<noteq> Beyond
              \<and> 59 \<notin> set (row_name r))
        \<and> 59 \<in> set (trim (js ''a; b'')) \<and> \<not> isAllowed 59"
    by (simp add: calc_defs row_defs)
  from C3_failures_return_zero [where formula = "js ''a; b''" and data = ?ab and tables = None
      and c = 59] k
  have 3: "calculateFormula (js ''a; b'') ?ab None = Fin 0" by blast
  let ?spaced = "[(0, Nam (js ''A'')), (1, Sym 43), (1, Lit 1)]"
  let ?s = "Total (Only (Single (Reference (js ''A'')))) (Single (Literal 1))"
  let ?A = "[numberRow 1 ''A'' 2]"
  have u: "trim (js ''(A + 1'') = 40 # spell ?spaced"
    by (simp add: trim_def js_def char_defs spell_def digits.simps)
  have ut: "tryBlock (js ''(A + 1'') ?A None = Throw SyntaxError"
    by (simp add: calc_defs row_defs)
  have uh: "map snd ?spaced = additiveTokens ?s \<and> trim (js ''(A + 1'') = 40 # spell ?spaced
        \<and> (\<forall>x. Nam x \<in> set (additiveTokens ?s) \<longrightarrow>
              isIdentifier x \<and> 0 \<le> (2::int) \<and> (2::int) \<le> 9007199254740992
              \<and> (\<exists>r. find (\<lambda>r. row_name r = x) (allData ?A None) = Some r
                    \<and> rowNumber r = Fin 2))
        \<and> (\<forall>r \<in> set (allData ?A None).
              row_name r \<noteq> [] \<and> includes_str (trim (js ''(A + 1'')) (row_name r)
                \<longrightarrow> isIdentifier (row_name r) \<and> numToString (rowNumber r) \<noteq> Beyond)"
    unfolding u
    by (simp add: isIdentifier_def js_def char_defs allData_def row_defs rowNumber_def spell_def
          digits.simps)
  from C3_failures_return_zero [where formula = "js ''(A + 1''" and data = ?A and tables = None
      and spaced = ?spaced and s = ?s and env = "\<lambda>x. 2"] uh
  have 6: "calculateFormula (js ''(A + 1'') ?A None = Fin 0" by blast
  have d: "substituted (js ''(1'') [] None = Ok (js ''(1'')" "evaluate (js ''(1'') = Throw SyntaxError"
    by (simp_all add: calc_defs)
  from C3_failures_return_zero [where formula = "js ''(1''" and data = "[]" and tables = None
      and err = SyntaxError and expression = "js ''(1''"] d
  have 4: "calculateFormula (js ''(1'') [] None = Fin 0" by blast
  have e: "substituted (js ''1(2)'') [] None = Ok (js ''1(2)'')" "evaluate (js ''1(2)'') = Throw TypeError"
    by (simp_all add: calc_defs)
  from C3_failures_return_zero [where formula = "js ''1(2)''" and data = "[]" and tables = None
      and err = TypeError and expression = "js ''1(2)''"] e
  have 5: "calculateFormula (js ''1(2)'') [] None = Fin 0" by blast
  have f: "allData [] None = []"
    by (simp add: allData_def)
  from f b 1 pf tb call 2 s 3 u ut 6 d 4 e 5 show ?thesis by blast
qed

end
